theory Spec2Isabelle
  imports Complex_Main
begin

section \<open>Exceptions and the two random generators\<close>

text \<open>
  The Python exceptions the code can raise. The message is kept for the two explicit
  \<^verbatim>\<open>raise\<close> statements of \<^verbatim>\<open>model.py\<close>; the other values stand for exceptions raised by
  numpy and by the \<^verbatim>\<open>random\<close> module.
\<close>

datatype error = ValueError string | IndexError string | RuntimeError string

text \<open>
  The code draws from two global generators: numpy's (\<^verbatim>\<open>np.random\<close>, used by
  \<^verbatim>\<open>model.py\<close>) and Python's (\<^verbatim>\<open>random\<close>, used by the mutations of \<^verbatim>\<open>algorithm.py\<close>).
  A generator is an arbitrary supply of naturals with a cursor: a draw reads the value
  under the cursor and advances it. A theorem for every generator is a theorem for
  every outcome of the draws.
\<close>

record rng =
  outcomes :: "nat \<Rightarrow> nat"
  cursor :: nat

definition next_draw :: "rng \<Rightarrow> nat \<times> rng" where
  "next_draw g = (outcomes g (cursor g), g\<lparr>cursor := Suc (cursor g)\<rparr>)"

definition draws :: "nat \<Rightarrow> rng \<Rightarrow> nat list \<times> rng" where
  "draws n g = (map (\<lambda>k. outcomes g (cursor g + k)) [0..<n], g\<lparr>cursor := cursor g + n\<rparr>)"

text \<open>
  \<^verbatim>\<open>np.random.randint(low=0, high=h, size=n)\<close>: \<open>n\<close> values below \<open>h\<close>; numpy raises
  ValueError when \<open>h\<close> is not positive. When \<open>h\<close> is 1 the only value is 0 and numpy
  fills the array without reading the generator.
\<close>

definition np_randint :: "nat \<Rightarrow> nat \<Rightarrow> rng \<Rightarrow> (error + nat list) \<times> rng" where
  "np_randint h n g =
     (if h = 0 then (Inl (ValueError ''high <= 0''), g)
      else if h = 1 then (Inr (replicate n 0), g)
      else (let (rs, g1) = draws n g in (Inr (map (\<lambda>r. r mod h) rs), g1)))"

text \<open>
  \<^verbatim>\<open>np.random.multinomial(n, np.ones(d) / d)\<close>: a vector of \<open>d\<close> non-negative counts
  that sum to \<open>n\<close>. As numpy does, the counts are drawn one rocket after the other, each
  between 0 and what remains, and the last rocket takes the rest. numpy raises
  ValueError for a negative \<open>n\<close>. (\<open>d = 0\<close> is outside the data model, which has at least
  one rocket; the model yields the empty vector there.)
\<close>

fun multinomial_counts :: "nat \<Rightarrow> int \<Rightarrow> rng \<Rightarrow> int list \<times> rng" where
  "multinomial_counts 0 n g = ([], g)"
| "multinomial_counts (Suc 0) n g = ([n], g)"
| "multinomial_counts (Suc (Suc d)) n g =
     (let (r, g1) = next_draw g;
          x = int (r mod (nat n + 1));
          (xs, g2) = multinomial_counts (Suc d) (n - x) g1
      in (x # xs, g2))"

definition np_multinomial :: "int \<Rightarrow> nat \<Rightarrow> rng \<Rightarrow> (error + int list) \<times> rng" where
  "np_multinomial n d g =
     (if n < 0 then (Inl (ValueError ''n < 0''), g)
      else (let (xs, g1) = multinomial_counts d n g in (Inr xs, g1)))"

text \<open>
  Python's \<^verbatim>\<open>random.randrange(n)\<close> and \<^verbatim>\<open>random.choice(seq)\<close>. A failing call raises
  before it draws.
\<close>

definition py_randrange :: "nat \<Rightarrow> rng \<Rightarrow> (error + nat) \<times> rng" where
  "py_randrange n g =
     (if n = 0 then (Inl (ValueError ''empty range for randrange()''), g)
      else (let (r, g1) = next_draw g in (Inr (r mod n), g1)))"

definition py_choice :: "'a list \<Rightarrow> rng \<Rightarrow> (error + 'a) \<times> rng" where
  "py_choice xs g =
     (if xs = [] then (Inl (IndexError ''Cannot choose from an empty sequence''), g)
      else (let (r, g1) = next_draw g in (Inr (xs ! (r mod length xs)), g1)))"

text \<open>
  The fixed-width integers of numpy: a value that leaves the range of its type keeps
  the low 32 (64) bits, read as two's complement.
\<close>

definition int32 :: "int \<Rightarrow> int" where
  "int32 v = (v + 2147483648) mod 4294967296 - 2147483648"

definition int64 :: "int \<Rightarrow> int" where
  "int64 v = (v + 9223372036854775808) mod 18446744073709551616 - 9223372036854775808"

text \<open>
  A numpy integer scalar with its type, and \<^verbatim>\<open>b + 1\<close> on it: the sum of a numpy scalar
  and a Python \<^verbatim>\<open>int\<close> has the type of the scalar.
\<close>

datatype np_integer = NpInt32 int | NpInt64 int

fun np_add_one :: "np_integer \<Rightarrow> int" where
  "np_add_one (NpInt32 v) = int32 (v + 1)"
| "np_add_one (NpInt64 v) = int64 (v + 1)"

text \<open>
  \<^verbatim>\<open>random.randint(lo, hi)\<close> is \<^verbatim>\<open>randrange(lo, hi + 1)\<close>: it raises ValueError when
  \<^verbatim>\<open>hi + 1\<close>, computed in the type of \<open>hi\<close>, is not above \<open>lo\<close>.
\<close>

definition py_randint :: "int \<Rightarrow> np_integer \<Rightarrow> rng \<Rightarrow> (error + int) \<times> rng" where
  "py_randint lo hi g =
     (let stop = np_add_one hi in
      if stop \<le> lo then (Inl (ValueError ''empty range for randrange()''), g)
      else (let (r, g1) = next_draw g in (Inr (lo + int (r mod nat (stop - lo))), g1)))"

section \<open>The data model (model.py)\<close>

text \<open>
  Sizes are natural numbers; capacities, amounts and the entries of the allocation are
  integers. The cost tables hold floats, modelled as reals: the claims compare costs that
  one deterministic function computes, and never depend on rounding.
\<close>

record Settings =
  num_rocket_types :: nat
  num_module_types :: nat
  num_rockets :: nat
  rocket_capacity :: int
  additional_fuel_costs :: "real list list"
  fuel_costs :: "real list"
  module_amounts :: "int list"

text \<open>
  \<open>module_allocation\<close> is the matrix as a list of rows, one row per rocket. The code
  creates it with \<^verbatim>\<open>dtype=np.int32\<close>: every store into it keeps the low 32 bits, read
  as two's complement.
\<close>

record Solution =
  rocket_type_allocation :: "nat list"
  module_allocation :: "int list list"

text \<open>\<^verbatim>\<open>allocation.sum(axis=1)\<close> and \<^verbatim>\<open>allocation.sum(axis=0)\<close> (64-bit accumulators).\<close>

definition row_sums :: "int list list \<Rightarrow> int list" where
  "row_sums a = map sum_list a"

definition column :: "nat \<Rightarrow> int list list \<Rightarrow> int list" where
  "column j a = map (\<lambda>row. row ! j) a"

definition column_sums :: "nat \<Rightarrow> int list list \<Rightarrow> int list" where
  "column_sums m a = map (\<lambda>j. sum_list (column j a)) [0..<m]"

definition is_valid_capacity :: "Solution \<Rightarrow> Settings \<Rightarrow> bool" where
  "is_valid_capacity solution settings =
     (\<forall>c \<in> set (row_sums (module_allocation solution)). c \<le> rocket_capacity settings)"

definition is_valid_module_total :: "Solution \<Rightarrow> Settings \<Rightarrow> bool" where
  "is_valid_module_total solution settings =
     (column_sums (num_module_types settings) (module_allocation solution)
        = module_amounts settings)"

text \<open>
  \<^verbatim>\<open>calculate_cost\<close>: indexing a cost table with a rocket type that is not a row of it
  raises IndexError. The shapes of the allocation and of the table are taken to
  agree (rows of \<open>num_module_types\<close> entries), as the constructor of Settings documents.
\<close>

definition calculate_cost :: "Solution \<Rightarrow> Settings \<Rightarrow> error + real" where
  "calculate_cost solution settings =
     (let types = rocket_type_allocation solution in
      if \<exists>t \<in> set types. \<not> t < length (additional_fuel_costs settings)
      then Inl (IndexError ''index out of bounds'')
      else if \<exists>t \<in> set types. \<not> t < length (fuel_costs settings)
      then Inl (IndexError ''index out of bounds'')
      else
        (let additional_fuel_cost =
               sum_list (map2 (\<lambda>row t. sum_list (map2 (\<lambda>x c. real_of_int x * c) row
                                  (additional_fuel_costs settings ! t)))
                         (module_allocation solution) types);
             rockets_fuel_cost = sum_list (map (\<lambda>t. fuel_costs settings ! t) types)
         in Inr (additional_fuel_cost + rockets_fuel_cost)))"

definition generate_random_rockets_type_allocation ::
  "Settings \<Rightarrow> rng \<Rightarrow> (error + nat list) \<times> rng" where
  "generate_random_rockets_type_allocation settings g =
     np_randint (num_rocket_types settings) (num_rockets settings) g"

subsection \<open>Random module allocation and the capacity repair\<close>

text \<open>\<^verbatim>\<open>allocation[:, module_type] = counts\<close>: a store into the int32 matrix.\<close>

definition set_column :: "nat \<Rightarrow> int list \<Rightarrow> int list list \<Rightarrow> int list list" where
  "set_column j counts a = map2 (\<lambda>row x. row[j := int32 x]) a counts"

text \<open>
  The \<^verbatim>\<open>for module_type, amount in enumerate(settings.module_amounts)\<close> loop. The draw is
  evaluated first, then the store, which raises IndexError for a column the matrix does
  not have.
\<close>

fun fill_columns ::
  "Settings \<Rightarrow> nat \<Rightarrow> int list \<Rightarrow> int list list \<Rightarrow> rng \<Rightarrow> (error + int list list) \<times> rng" where
  "fill_columns settings module_type [] allocation g = (Inr allocation, g)"
| "fill_columns settings module_type (amount # rest) allocation g =
     (case np_multinomial amount (num_rockets settings) g of
        (Inl e, g1) \<Rightarrow> (Inl e, g1)
      | (Inr counts, g1) \<Rightarrow>
          if \<not> module_type < num_module_types settings
          then (Inl (IndexError ''index out of bounds''), g1)
          else fill_columns settings (Suc module_type) rest
                 (set_column module_type counts allocation) g1)"

text \<open>\<^verbatim>\<open>np.argmax\<close> and \<^verbatim>\<open>np.argmin\<close>: the first index of a largest (smallest) entry.\<close>

fun argmax :: "int list \<Rightarrow> nat" where
  "argmax [] = 0"
| "argmax [x] = 0"
| "argmax (x # y # ys) = (let k = argmax (y # ys) in if (y # ys) ! k \<le> x then 0 else Suc k)"

fun argmin :: "int list \<Rightarrow> nat" where
  "argmin [] = 0"
| "argmin [x] = 0"
| "argmin (x # y # ys) = (let k = argmin (y # ys) in if x \<le> (y # ys) ! k then 0 else Suc k)"

definition any_over_capacity :: "Settings \<Rightarrow> int list list \<Rightarrow> bool" where
  "any_over_capacity settings allocation =
     (\<exists>c \<in> set (row_sums allocation). rocket_capacity settings < c)"

text \<open>
  The body of the \<^verbatim>\<open>while\<close> loop. It runs only when some row sum exceeds the capacity,
  so the matrix has a row; \<^verbatim>\<open>np.argmax\<close> of a row without entries raises ValueError.
\<close>

definition repair_step :: "Settings \<Rightarrow> int list list \<Rightarrow> error + int list list" where
  "repair_step settings allocation =
     (let rocket_module_counts = row_sums allocation;
          max_rocket_index = argmax rocket_module_counts;
          min_rocket_index = argmin rocket_module_counts
      in if allocation ! max_rocket_index = []
         then Inl (ValueError ''attempt to get argmax of an empty sequence'')
         else
          (let module_index = argmax (allocation ! max_rocket_index);
               num_modules_to_transfer =
                 min (allocation ! max_rocket_index ! module_index)
                     (rocket_module_counts ! max_rocket_index - rocket_capacity settings);
               a1 = allocation[max_rocket_index := (allocation ! max_rocket_index)
                      [module_index := int32 (allocation ! max_rocket_index ! module_index
                                               - num_modules_to_transfer)]];
               a2 = a1[min_rocket_index := (a1 ! min_rocket_index)
                      [module_index := int32 (a1 ! min_rocket_index ! module_index
                                               + num_modules_to_transfer)]]
           in Inr a2))"

text \<open>
  The \<^verbatim>\<open>while np.any(allocation.sum(axis=1) > settings.rocket_capacity)\<close> loop. It need
  not terminate on every matrix: \<open>None\<close> is the run that never leaves the loop.
\<close>

partial_function (option) repair :: "Settings \<Rightarrow> int list list \<Rightarrow> (error + int list list) option" where
  "repair settings allocation =
     (if any_over_capacity settings allocation
      then (case repair_step settings allocation of
              Inl e \<Rightarrow> Some (Inl e)
            | Inr a \<Rightarrow> repair settings a)
      else Some (Inr allocation))"

text \<open>
  The same loop cut off after \<open>n\<close> iterations of its body: \<open>None\<close> when the loop is still
  running then.
\<close>

fun repair_within :: "nat \<Rightarrow> Settings \<Rightarrow> int list list \<Rightarrow> (error + int list list) option" where
  "repair_within n settings allocation =
     (if any_over_capacity settings allocation
      then (case n of
              0 \<Rightarrow> None
            | Suc k \<Rightarrow>
                (case repair_step settings allocation of
                   Inl e \<Rightarrow> Some (Inl e)
                 | Inr a \<Rightarrow> repair_within k settings a))
      else Some (Inr allocation))"

text \<open>
  \<^verbatim>\<open>generate_random_modules_allocation\<close>. The capacity of the fleet is a product of
  Python integers; \<^verbatim>\<open>settings.module_amounts.sum()\<close> is the sum of an int64 array in
  int64.
\<close>

definition generate_random_modules_allocation ::
  "Settings \<Rightarrow> rng \<Rightarrow> ((error + int list list) \<times> rng) option" where
  "generate_random_modules_allocation settings g =
     (if int (num_rockets settings) * rocket_capacity settings
           < int64 (sum_list (module_amounts settings))
      then Some (Inl (ValueError ''Not enough capacity to carry all modules.''), g)
      else
        (let allocation = replicate (num_rockets settings)
                            (replicate (num_module_types settings) 0)
         in case fill_columns settings 0 (module_amounts settings) allocation g of
              (Inl e, g1) \<Rightarrow> Some (Inl e, g1)
            | (Inr a, g1) \<Rightarrow>
                (case repair settings a of
                   None \<Rightarrow> None
                 | Some (Inl e) \<Rightarrow> Some (Inl e, g1)
                 | Some (Inr a') \<Rightarrow> Some (Inr a', g1))))"

text \<open>
  \<^verbatim>\<open>generate_random_solution\<close>: Python evaluates the arguments of \<^verbatim>\<open>Solution(...)\<close> from
  left to right, the rocket types first.
\<close>

definition generate_random_solution :: "Settings \<Rightarrow> rng \<Rightarrow> ((error + Solution) \<times> rng) option" where
  "generate_random_solution settings g =
     (case generate_random_rockets_type_allocation settings g of
        (Inl e, g1) \<Rightarrow> Some (Inl e, g1)
      | (Inr types, g1) \<Rightarrow>
          (case generate_random_modules_allocation settings g1 of
             None \<Rightarrow> None
           | Some (Inl e, g2) \<Rightarrow> Some (Inl e, g2)
           | Some (Inr a, g2) \<Rightarrow>
               (let solution = \<lparr>rocket_type_allocation = types, module_allocation = a\<rparr>
                in if \<not> (is_valid_capacity solution settings
                          \<and> is_valid_module_total solution settings)
                   then Some (Inl (RuntimeError ''Solution is not valid.''), g2)
                   else Some (Inr solution, g2))))"

section \<open>The bees algorithm (algorithm.py)\<close>

record BeesSolver =
  settings :: Settings
  population_size :: nat
  modules_mutations :: nat
  rockets_type_mutations :: nat
  elite_sites :: nat
  normal_sites :: nat
  elite_site_size :: nat
  normal_site_size :: nat
  population :: "Solution list"

text \<open>
  \<^verbatim>\<open>BeesSolver.__init__\<close> stores its arguments and an empty population. It has no
  \<^verbatim>\<open>raise\<close>: the result is always the new object.
\<close>

definition BeesSolver_init ::
  "Settings \<Rightarrow> nat \<Rightarrow> nat \<Rightarrow> nat \<Rightarrow> nat \<Rightarrow> nat \<Rightarrow> nat \<Rightarrow> nat \<Rightarrow> error + BeesSolver" where
  "BeesSolver_init s psize mm rm es ns ess nss =
     Inr \<lparr>settings = s, population_size = psize, modules_mutations = mm,
          rockets_type_mutations = rm, elite_sites = es, normal_sites = ns,
          elite_site_size = ess, normal_site_size = nss, population = []\<rparr>"

text \<open>
  The mutations change the Solution in place. The model returns the exception, if one
  was raised, together with the Solution and the generator as the call leaves them.
\<close>

definition mutate_rockets_type_allocation ::
  "Settings \<Rightarrow> Solution \<Rightarrow> rng \<Rightarrow> error option \<times> Solution \<times> rng" where
  "mutate_rockets_type_allocation s solution g =
     (case py_randrange (num_rockets s) g of
        (Inl e, g1) \<Rightarrow> (Some e, solution, g1)
      | (Inr rocket_index, g1) \<Rightarrow>
          (case py_randrange (num_rocket_types s) g1 of
             (Inl e, g2) \<Rightarrow> (Some e, solution, g2)
           | (Inr new_rocket_type, g2) \<Rightarrow>
               if \<not> rocket_index < length (rocket_type_allocation solution)
               then (Some (IndexError ''index out of bounds''), solution, g2)
               else (None,
                     solution\<lparr>rocket_type_allocation :=
                       (rocket_type_allocation solution)[rocket_index := new_rocket_type]\<rparr>,
                     g2)))"

text \<open>\<^verbatim>\<open>np.argwhere(v > 0).flatten()\<close>: the indices of the positive entries, in order.\<close>

definition argwhere_positive :: "int list \<Rightarrow> nat list" where
  "argwhere_positive v = filter (\<lambda>i. 0 < v ! i) [0..<length v]"

text \<open>
  \<^verbatim>\<open>__mutate_modules_allocation\<close>. Python's \<^verbatim>\<open>min(x, y)\<close> is \<open>x\<close> unless \<open>y < x\<close>: the
  entry of the int32 matrix, unless the remaining capacity, an entry of an int64 array,
  is smaller.
\<close>

definition mutate_modules_allocation ::
  "Settings \<Rightarrow> Solution \<Rightarrow> rng \<Rightarrow> error option \<times> Solution \<times> rng" where
  "mutate_modules_allocation s solution g =
     (let a = module_allocation solution;
          rocket_capacities = map (\<lambda>c. rocket_capacity s - c) (row_sums a)
      in case py_randrange (num_module_types s) g of
           (Inl e, g1) \<Rightarrow> (Some e, solution, g1)
         | (Inr module_type_index, g1) \<Rightarrow>
          (case py_choice (argwhere_positive rocket_capacities) g1 of
             (Inl e, g2) \<Rightarrow> (Some e, solution, g2)
           | (Inr to_rocket_index, g2) \<Rightarrow>
            if \<exists>row \<in> set a. \<not> module_type_index < length row
            then (Some (IndexError ''index out of bounds''), solution, g2)
            else
            (case py_choice (argwhere_positive (column module_type_index a)) g2 of
               (Inl e, g3) \<Rightarrow> (Some e, solution, g3)
             | (Inr from_rocket_index, g3) \<Rightarrow>
              (let max_module_amount =
                     (if rocket_capacities ! to_rocket_index
                           < a ! from_rocket_index ! module_type_index
                      then NpInt64 (rocket_capacities ! to_rocket_index)
                      else NpInt32 (a ! from_rocket_index ! module_type_index))
               in case py_randint 1 max_module_amount g3 of
                    (Inl e, g4) \<Rightarrow> (Some e, solution, g4)
                  | (Inr module_amount, g4) \<Rightarrow>
                     (let a1 = a[from_rocket_index := (a ! from_rocket_index)
                                  [module_type_index :=
                                     int32 (a ! from_rocket_index ! module_type_index
                                            - module_amount)]];
                          a2 = a1[to_rocket_index := (a1 ! to_rocket_index)
                                  [module_type_index :=
                                     int32 (a1 ! to_rocket_index ! module_type_index
                                            + module_amount)]]
                      in (None, solution\<lparr>module_allocation := a2\<rparr>, g4))))))"

text \<open>A \<^verbatim>\<open>for _ in range(n)\<close> loop around one mutation; an exception leaves the loop.\<close>

fun repeat_mutation ::
  "(Solution \<Rightarrow> rng \<Rightarrow> error option \<times> Solution \<times> rng) \<Rightarrow> nat \<Rightarrow> Solution \<Rightarrow> rng
     \<Rightarrow> error option \<times> Solution \<times> rng" where
  "repeat_mutation f 0 solution g = (None, solution, g)"
| "repeat_mutation f (Suc n) solution g =
     (case f solution g of
        (Some e, solution1, g1) \<Rightarrow> (Some e, solution1, g1)
      | (None, solution1, g1) \<Rightarrow> repeat_mutation f n solution1 g1)"

definition mutate_solution ::
  "BeesSolver \<Rightarrow> Solution \<Rightarrow> rng \<Rightarrow> error option \<times> Solution \<times> rng" where
  "mutate_solution b solution g =
     (case repeat_mutation (mutate_modules_allocation (settings b))
             (modules_mutations b) solution g of
        (Some e, solution1, g1) \<Rightarrow> (Some e, solution1, g1)
      | (None, solution1, g1) \<Rightarrow>
          repeat_mutation (mutate_rockets_type_allocation (settings b))
            (rockets_type_mutations b) solution1 g1)"

text \<open>
  \<^verbatim>\<open>sorted(xs, key=lambda sol: calculate_cost(sol, settings))\<close> and \<^verbatim>\<open>list.sort\<close>
  with the same key: the keys are computed first, from left to right, so the first
  failing key raises; the sort is stable, as \<open>sort_key\<close> is.
\<close>

definition cost_key :: "Settings \<Rightarrow> Solution \<Rightarrow> real" where
  "cost_key s solution = (case calculate_cost solution s of Inl e \<Rightarrow> 0 | Inr c \<Rightarrow> c)"

fun first_cost_error :: "Settings \<Rightarrow> Solution list \<Rightarrow> error option" where
  "first_cost_error s [] = None"
| "first_cost_error s (x # xs) =
     (case calculate_cost x s of Inl e \<Rightarrow> Some e | Inr c \<Rightarrow> first_cost_error s xs)"

definition sorted_by_cost :: "Settings \<Rightarrow> Solution list \<Rightarrow> error + Solution list" where
  "sorted_by_cost s xs =
     (case first_cost_error s xs of
        Some e \<Rightarrow> Inl e
      | None \<Rightarrow> Inr (sort_key (cost_key s) xs))"

text \<open>The \<^verbatim>\<open>for n in neighbours: self.__mutate_solution(n)\<close> loop over the deep copies.\<close>

fun mutate_neighbours ::
  "BeesSolver \<Rightarrow> Solution list \<Rightarrow> rng \<Rightarrow> (error + Solution list) \<times> rng" where
  "mutate_neighbours b [] g = (Inr [], g)"
| "mutate_neighbours b (n # ns) g =
     (case mutate_solution b n g of
        (Some e, n1, g1) \<Rightarrow> (Inl e, g1)
      | (None, n1, g1) \<Rightarrow>
          (case mutate_neighbours b ns g1 of
             (Inl e, g2) \<Rightarrow> (Inl e, g2)
           | (Inr ns1, g2) \<Rightarrow> (Inr (n1 # ns1), g2)))"

text \<open>
  \<^verbatim>\<open>__find_best_neighbour\<close>: the original is appended after the mutated copies, and
  element 0 of the sorted list is returned (the list has at least the original).
\<close>

definition find_best_neighbour ::
  "BeesSolver \<Rightarrow> Solution \<Rightarrow> nat \<Rightarrow> rng \<Rightarrow> (error + Solution) \<times> rng" where
  "find_best_neighbour b solution neighbours_count g =
     (case mutate_neighbours b (replicate neighbours_count solution) g of
        (Inl e, g1) \<Rightarrow> (Inl e, g1)
      | (Inr neighbours, g1) \<Rightarrow>
          (case sorted_by_cost (settings b) (neighbours @ [solution]) of
             Inl e \<Rightarrow> (Inl e, g1)
           | Inr ys \<Rightarrow> (Inr (hd ys), g1)))"

text \<open>
  The loops of \<^verbatim>\<open>simulate_population\<close> over a range of indices. Reading
  \<^verbatim>\<open>self.population[i]\<close> beyond the end of the list raises IndexError.
\<close>

fun exploit_sites ::
  "BeesSolver \<Rightarrow> nat \<Rightarrow> nat list \<Rightarrow> Solution list \<Rightarrow> rng
     \<Rightarrow> error option \<times> Solution list \<times> rng" where
  "exploit_sites b site_size [] pop g = (None, pop, g)"
| "exploit_sites b site_size (i # is) pop g =
     (if \<not> i < length pop then (Some (IndexError ''list index out of range''), pop, g)
      else (case find_best_neighbour b (pop ! i) site_size g of
              (Inl e, g1) \<Rightarrow> (Some e, pop, g1)
            | (Inr best, g1) \<Rightarrow> exploit_sites b site_size is (pop[i := best]) g1))"

fun replace_scouts ::
  "Settings \<Rightarrow> nat list \<Rightarrow> Solution list \<Rightarrow> rng
     \<Rightarrow> (error option \<times> Solution list \<times> rng) option" where
  "replace_scouts s [] pop g = Some (None, pop, g)"
| "replace_scouts s (i # is) pop g =
     (case generate_random_solution s g of
        None \<Rightarrow> None
      | Some (Inl e, g1) \<Rightarrow> Some (Some e, pop, g1)
      | Some (Inr solution, g1) \<Rightarrow> replace_scouts s is (pop[i := solution]) g1)"

text \<open>The state of the two generators.\<close>

record world =
  np_random :: rng
  py_random :: rng

definition simulate_population ::
  "BeesSolver \<Rightarrow> world \<Rightarrow> (error option \<times> BeesSolver \<times> world) option" where
  "simulate_population b w =
     (case sorted_by_cost (settings b) (population b) of
        Inl e \<Rightarrow> Some (Some e, b, w)
      | Inr pop0 \<Rightarrow>
         (case exploit_sites b (elite_site_size b) [0..<elite_sites b] pop0 (py_random w) of
            (Some e, pop1, g1) \<Rightarrow> Some (Some e, b\<lparr>population := pop1\<rparr>, w\<lparr>py_random := g1\<rparr>)
          | (None, pop1, g1) \<Rightarrow>
             (case exploit_sites b (normal_site_size b)
                     [elite_sites b..<elite_sites b + normal_sites b] pop1 g1 of
                (Some e, pop2, g2) \<Rightarrow>
                  Some (Some e, b\<lparr>population := pop2\<rparr>, w\<lparr>py_random := g2\<rparr>)
              | (None, pop2, g2) \<Rightarrow>
                 (case replace_scouts (settings b)
                         [elite_sites b + normal_sites b..<length pop2] pop2 (np_random w) of
                    None \<Rightarrow> None
                  | Some (err, pop3, g3) \<Rightarrow>
                      Some (err, b\<lparr>population := pop3\<rparr>,
                            \<lparr>np_random = g3, py_random = g2\<rparr>)))))"

text \<open>
  \<^verbatim>\<open>[generate_random_solution(self.settings) for _ in range(self.population_size)]\<close>:
  the list is assigned only when every element was generated.
\<close>

fun random_population ::
  "Settings \<Rightarrow> nat \<Rightarrow> rng \<Rightarrow> ((error + Solution list) \<times> rng) option" where
  "random_population s 0 g = Some (Inr [], g)"
| "random_population s (Suc n) g =
     (case generate_random_solution s g of
        None \<Rightarrow> None
      | Some (Inl e, g1) \<Rightarrow> Some (Inl e, g1)
      | Some (Inr solution, g1) \<Rightarrow>
          (case random_population s n g1 of
             None \<Rightarrow> None
           | Some (Inl e, g2) \<Rightarrow> Some (Inl e, g2)
           | Some (Inr rest, g2) \<Rightarrow> Some (Inr (solution # rest), g2)))"

fun run_generations ::
  "nat \<Rightarrow> BeesSolver \<Rightarrow> world \<Rightarrow> (error option \<times> BeesSolver \<times> world) option" where
  "run_generations 0 b w = Some (None, b, w)"
| "run_generations (Suc n) b w =
     (case simulate_population b w of
        None \<Rightarrow> None
      | Some (Some e, b1, w1) \<Rightarrow> Some (Some e, b1, w1)
      | Some (None, b1, w1) \<Rightarrow> run_generations n b1 w1)"

definition find_best_solution ::
  "BeesSolver \<Rightarrow> nat \<Rightarrow> world \<Rightarrow> ((error + Solution) \<times> BeesSolver \<times> world) option" where
  "find_best_solution b iterations w =
     (case random_population (settings b) (population_size b) (np_random w) of
        None \<Rightarrow> None
      | Some (Inl e, g1) \<Rightarrow> Some (Inl e, b, w\<lparr>np_random := g1\<rparr>)
      | Some (Inr pop, g1) \<Rightarrow>
          (case run_generations iterations (b\<lparr>population := pop\<rparr>) (w\<lparr>np_random := g1\<rparr>) of
             None \<Rightarrow> None
           | Some (Some e, b1, w1) \<Rightarrow> Some (Inl e, b1, w1)
           | Some (None, b1, w1) \<Rightarrow>
               (case population b1 of
                  [] \<Rightarrow> Some (Inl (IndexError ''list index out of range''), b1, w1)
                | x # xs \<Rightarrow> Some (Inr x, b1, w1))))"

section \<open>Predicates of the specification\<close>

text \<open>
  A Configuration of the data model: positive sizes, one non-negative amount per module
  type. It is feasible when the fleet can carry the whole demand.
\<close>

definition wf_settings :: "Settings \<Rightarrow> bool" where
  "wf_settings s =
     (0 < num_rocket_types s \<and> 0 < num_module_types s \<and> 0 < num_rockets s
      \<and> length (module_amounts s) = num_module_types s
      \<and> (\<forall>n \<in> set (module_amounts s). 0 \<le> n))"

definition feasible :: "Settings \<Rightarrow> bool" where
  "feasible s = (sum_list (module_amounts s) \<le> int (num_rockets s) * rocket_capacity s)"

text \<open>The total demand is what the int64 sum of the amounts holds.\<close>

definition demand_in_int64 :: "Settings \<Rightarrow> bool" where
  "demand_in_int64 s = (sum_list (module_amounts s) < 9223372036854775808)"

text \<open>
  Every amount can be stored in an int32 entry of the allocation; every amount is
  below the largest int32.
\<close>

definition fits_int32 :: "Settings \<Rightarrow> bool" where
  "fits_int32 s = (\<forall>n \<in> set (module_amounts s). n < 2147483648)"

definition below_int32_max :: "Settings \<Rightarrow> bool" where
  "below_int32_max s = (\<forall>n \<in> set (module_amounts s). n < 2147483647)"

text \<open>A matrix of \<open>r\<close> rows and \<open>m\<close> columns; its entries; what an int32 array can hold.\<close>

definition shape :: "nat \<Rightarrow> nat \<Rightarrow> int list list \<Rightarrow> bool" where
  "shape r m a = (length a = r \<and> (\<forall>row \<in> set a. length row = m))"

definition nonneg :: "int list list \<Rightarrow> bool" where
  "nonneg a = (\<forall>row \<in> set a. \<forall>v \<in> set row. 0 \<le> v)"

definition in_int32 :: "int list list \<Rightarrow> bool" where
  "in_int32 a = (\<forall>row \<in> set a. \<forall>v \<in> set row. - 2147483648 \<le> v \<and> v < 2147483648)"

text \<open>The demand invariant on a matrix of the right shape with non-negative entries.\<close>

definition exact :: "Settings \<Rightarrow> int list list \<Rightarrow> bool" where
  "exact s a = (shape (num_rockets s) (num_module_types s) a \<and> nonneg a
                \<and> column_sums (num_module_types s) a = module_amounts s)"

text \<open>
  A feasible Solution: the shapes and value ranges of the data model, entries an int32
  array can hold, and the two invariants as the validators of \<^verbatim>\<open>model.py\<close> check them.
\<close>

definition feasible_solution :: "Settings \<Rightarrow> Solution \<Rightarrow> bool" where
  "feasible_solution s solution =
     (length (rocket_type_allocation solution) = num_rockets s
      \<and> (\<forall>t \<in> set (rocket_type_allocation solution). t < num_rocket_types s)
      \<and> shape (num_rockets s) (num_module_types s) (module_allocation solution)
      \<and> nonneg (module_allocation solution)
      \<and> in_int32 (module_allocation solution)
      \<and> is_valid_capacity solution s
      \<and> is_valid_module_total solution s)"

text \<open>The outcomes of a multinomial draw of \<open>n\<close> units over \<open>d\<close> rockets.\<close>

definition multinomial_outcome :: "nat \<Rightarrow> int \<Rightarrow> int list \<Rightarrow> bool" where
  "multinomial_outcome d n c = (length c = d \<and> (\<forall>x \<in> set c. 0 \<le> x) \<and> sum_list c = n)"

text \<open>
  The measure that bounds the repair loop: a row over the capacity counts its non-zero
  entries, a row under the capacity counts the number of module types, a row that is
  exactly full counts nothing.
\<close>

definition row_potential :: "Settings \<Rightarrow> int list \<Rightarrow> nat" where
  "row_potential s row =
     (if rocket_capacity s < sum_list row then length (filter (\<lambda>v. v \<noteq> 0) row)
      else if sum_list row < rocket_capacity s then num_module_types s
      else 0)"

definition potential :: "Settings \<Rightarrow> int list list \<Rightarrow> nat" where
  "potential s a = sum_list (map (row_potential s) a)"

section \<open>Concrete inputs\<close>

text \<open>A generator whose every draw is \<open>k\<close>.\<close>

definition constant_rng :: "nat \<Rightarrow> rng" where
  "constant_rng k = \<lparr>outcomes = (\<lambda>_. k), cursor = 0\<rparr>"

text \<open>
  Two rockets of capacity 5 and one module type, with two rocket types of fuel cost 1
  and 100: a demand of 4, and a demand of 8 that one rocket alone cannot carry.
\<close>

definition scenario_settings :: Settings where
  "scenario_settings = \<lparr>num_rocket_types = 2, num_module_types = 1, num_rockets = 2,
     rocket_capacity = 5, additional_fuel_costs = [[0], [0]], fuel_costs = [1, 100],
     module_amounts = [4]\<rparr>"

definition tight_settings :: Settings where
  "tight_settings = \<lparr>num_rocket_types = 2, num_module_types = 1, num_rockets = 2,
     rocket_capacity = 5, additional_fuel_costs = [[0], [0]], fuel_costs = [1, 100],
     module_amounts = [8]\<rparr>"

text \<open>One rocket that can carry the \<open>2^31\<close> modules asked for.\<close>

definition big_settings :: Settings where
  "big_settings = \<lparr>num_rocket_types = 1, num_module_types = 1, num_rockets = 1,
     rocket_capacity = 2147483648, additional_fuel_costs = [[0]], fuel_costs = [1],
     module_amounts = [2147483648]\<rparr>"

text \<open>
  One rocket of capacity 1 for a demand of 5, and for a demand of two amounts of
  \<open>2^62\<close>.
\<close>

definition infeasible_settings :: Settings where
  "infeasible_settings = \<lparr>num_rocket_types = 2, num_module_types = 1, num_rockets = 1,
     rocket_capacity = 1, additional_fuel_costs = [[0], [0]], fuel_costs = [1, 100],
     module_amounts = [5]\<rparr>"

definition wrapped_settings :: Settings where
  "wrapped_settings = \<lparr>num_rocket_types = 1, num_module_types = 2, num_rockets = 1,
     rocket_capacity = 1, additional_fuel_costs = [[0, 0]], fuel_costs = [1],
     module_amounts = [4611686018427387904, 4611686018427387904]\<rparr>"

text \<open>A generator that replays the draws \<open>xs\<close>, then draws 0.\<close>

definition list_rng :: "nat list \<Rightarrow> rng" where
  "list_rng xs = \<lparr>outcomes = (\<lambda>k. if k < length xs then xs ! k else 0), cursor = 0\<rparr>"

text \<open>The two generators of a run: numpy's and Python's.\<close>

definition start_world :: "rng \<Rightarrow> rng \<Rightarrow> world" where
  "start_world gn gp = \<lparr>np_random = gn, py_random = gp\<rparr>"

text \<open>
  Solutions of \<open>scenario_settings\<close>: both rockets of the dear type, both of the cheap
  type, one of each, and the allocation that the all-zero draws produce.
\<close>

definition example_solution :: Solution where
  "example_solution = \<lparr>rocket_type_allocation = [1, 1], module_allocation = [[1], [3]]\<rparr>"

definition cheap_solution :: Solution where
  "cheap_solution = \<lparr>rocket_type_allocation = [0, 0], module_allocation = [[1], [3]]\<rparr>"

definition mixed_solution :: Solution where
  "mixed_solution = \<lparr>rocket_type_allocation = [0, 1], module_allocation = [[1], [3]]\<rparr>"

definition scout_solution :: Solution where
  "scout_solution = \<lparr>rocket_type_allocation = [0, 0], module_allocation = [[0], [4]]\<rparr>"

text \<open>
  Solvers on \<open>scenario_settings\<close>: one elite site with one neighbour that mutates one
  rocket type; no site at all; one elite site with no neighbour and an empty population;
  and the arguments \<open>eliteSites = normalSites = 1\<close> with \<open>populationSize = 1\<close>.
\<close>

definition example_solver :: BeesSolver where
  "example_solver = \<lparr>settings = scenario_settings, population_size = 2, modules_mutations = 0,
     rockets_type_mutations = 1, elite_sites = 1, normal_sites = 0, elite_site_size = 1,
     normal_site_size = 0, population = [example_solution, cheap_solution]\<rparr>"

definition scout_solver :: BeesSolver where
  "scout_solver = \<lparr>settings = scenario_settings, population_size = 1, modules_mutations = 0,
     rockets_type_mutations = 0, elite_sites = 0, normal_sites = 0, elite_site_size = 0,
     normal_site_size = 0, population = [cheap_solution]\<rparr>"

definition greedy_solver :: BeesSolver where
  "greedy_solver = \<lparr>settings = scenario_settings, population_size = 2, modules_mutations = 0,
     rockets_type_mutations = 0, elite_sites = 1, normal_sites = 0, elite_site_size = 0,
     normal_site_size = 0, population = []\<rparr>"

definition crowded_solver :: BeesSolver where
  "crowded_solver = \<lparr>settings = scenario_settings, population_size = 1, modules_mutations = 0,
     rockets_type_mutations = 0, elite_sites = 1, normal_sites = 1, elite_site_size = 0,
     normal_site_size = 0, population = []\<rparr>"

text \<open>
  Two rockets of capacity \<open>2^31\<close> for a demand of \<open>2^31\<close>, with a feasible Solution
  whose first entry is the largest int32; and two rockets filled to their capacity.
\<close>

definition huge_settings :: Settings where
  "huge_settings = \<lparr>num_rocket_types = 1, num_module_types = 1, num_rockets = 2,
     rocket_capacity = 2147483648, additional_fuel_costs = [[0]], fuel_costs = [1],
     module_amounts = [2147483648]\<rparr>"

definition huge_solution :: Solution where
  "huge_solution = \<lparr>rocket_type_allocation = [0, 0], module_allocation = [[2147483647], [1]]\<rparr>"

text \<open>
  Two rockets of capacity \<open>2^31\<close> for a demand of \<open>2^31 - 1\<close>, all of it in the first
  rocket.
\<close>

definition brim_settings :: Settings where
  "brim_settings = \<lparr>num_rocket_types = 1, num_module_types = 1, num_rockets = 2,
     rocket_capacity = 2147483648, additional_fuel_costs = [[0]], fuel_costs = [1],
     module_amounts = [2147483647]\<rparr>"

definition brim_solution :: Solution where
  "brim_solution = \<lparr>rocket_type_allocation = [0, 0], module_allocation = [[2147483647], [0]]\<rparr>"

definition packed_settings :: Settings where
  "packed_settings = \<lparr>num_rocket_types = 2, num_module_types = 1, num_rockets = 2,
     rocket_capacity = 5, additional_fuel_costs = [[0], [0]], fuel_costs = [1, 100],
     module_amounts = [10]\<rparr>"

definition packed_solution :: Solution where
  "packed_solution = \<lparr>rocket_type_allocation = [0, 0], module_allocation = [[5], [5]]\<rparr>"

section \<open>Arithmetic of int32 stores, argmax and argmin\<close>

lemma int32_id: "- 2147483648 \<le> v \<Longrightarrow> v < 2147483648 \<Longrightarrow> int32 v = v"
  by (simp add: int32_def)

lemma int32_lower: "- 2147483648 \<le> int32 v"
  by (simp add: int32_def)

lemma int32_upper: "int32 v < 2147483648"
proof -
  have "(v + 2147483648) mod 4294967296 < 4294967296" by simp
  then show ?thesis by (simp add: int32_def)
qed

lemma int64_id:
  "- 9223372036854775808 \<le> v \<Longrightarrow> v < 9223372036854775808 \<Longrightarrow> int64 v = v"
  by (simp add: int64_def)

lemma int64_le: "- 9223372036854775808 \<le> v \<Longrightarrow> int64 v \<le> v"
proof -
  assume l: "- 9223372036854775808 \<le> v"
  have "(v + 9223372036854775808) mod 18446744073709551616 \<le> v + 9223372036854775808"
    using l by (intro zmod_le_nonneg_dividend) simp
  then show ?thesis by (simp add: int64_def)
qed

lemma int64_ge: "v < 9223372036854775808 \<Longrightarrow> v \<le> int64 v"
proof (cases "- 9223372036854775808 \<le> v")
  case True
  assume "v < 9223372036854775808"
  then show ?thesis using True by (simp add: int64_id)
next
  case False
  have "0 \<le> (v + 9223372036854775808) mod 18446744073709551616" by simp
  then have "- 9223372036854775808 \<le> int64 v" by (simp add: int64_def)
  then show ?thesis using False by simp
qed

lemma int32_le: "- 2147483648 \<le> v \<Longrightarrow> int32 v \<le> v"
proof -
  assume "- 2147483648 \<le> v"
  then have "(v + 2147483648) mod 4294967296 \<le> v + 2147483648"
    by (intro zmod_le_nonneg_dividend) simp
  then show ?thesis by (simp add: int32_def)
qed

lemma argmax_less: "xs \<noteq> [] \<Longrightarrow> argmax xs < length xs"
  by (induction xs rule: argmax.induct) (auto simp: Let_def)

lemma argmax_greatest: "i < length xs \<Longrightarrow> xs ! i \<le> xs ! argmax xs"
proof (induction xs arbitrary: i rule: argmax.induct)
  case 1
  then show ?case by simp
next
  case (2 x)
  then show ?case by simp
next
  case (3 x y ys)
  show ?case
  proof (cases i)
    case 0
    then show ?thesis by (auto simp: Let_def)
  next
    case (Suc k)
    with 3 have "(y # ys) ! k \<le> (y # ys) ! argmax (y # ys)" by simp
    with Suc show ?thesis by (auto simp: Let_def)
  qed
qed

lemma argmin_less: "xs \<noteq> [] \<Longrightarrow> argmin xs < length xs"
  by (induction xs rule: argmin.induct) (auto simp: Let_def)

lemma argmin_least: "i < length xs \<Longrightarrow> xs ! argmin xs \<le> xs ! i"
proof (induction xs arbitrary: i rule: argmin.induct)
  case 1
  then show ?case by simp
next
  case (2 x)
  then show ?case by simp
next
  case (3 x y ys)
  show ?case
  proof (cases i)
    case 0
    then show ?thesis by (auto simp: Let_def)
  next
    case (Suc k)
    with 3 have "(y # ys) ! argmin (y # ys) \<le> (y # ys) ! k" by simp
    with Suc show ?thesis by (auto simp: Let_def)
  qed
qed

lemma multinomial_counts_props:
  "0 < d \<Longrightarrow> 0 \<le> n \<Longrightarrow> multinomial_counts d n g = (xs, g1) \<Longrightarrow>
     length xs = d \<and> (\<forall>x \<in> set xs. 0 \<le> x) \<and> sum_list xs = n"
proof (induction d n g arbitrary: xs g1 rule: multinomial_counts.induct)
  case (1 n g)
  then show ?case by simp
next
  case (2 n g)
  then show ?case by auto
next
  case (3 d n g)
  obtain r g' where dr: "next_draw g = (r, g')" by (cases "next_draw g")
  define x where "x = int (r mod (nat n + 1))"
  obtain ys g2 where rec: "multinomial_counts (Suc d) (n - x) g' = (ys, g2)"
    by (cases "multinomial_counts (Suc d) (n - x) g'")
  have x0: "0 \<le> x" by (simp add: x_def)
  have "r mod (nat n + 1) < nat n + 1" by simp
  then have "int (r mod (nat n + 1)) \<le> int (nat n)" by linarith
  then have xn: "x \<le> n" using \<open>0 \<le> n\<close> by (simp add: x_def)
  have xs: "xs = x # ys" using "3.prems"(3) dr rec by (simp add: x_def Let_def)
  have "length ys = Suc d \<and> (\<forall>x \<in> set ys. 0 \<le> x) \<and> sum_list ys = n - x"
    using "3.IH"[OF dr[symmetric] refl x_def _ _ rec] xn  by simp
  then show ?case using xs x0 by auto
qed

lemma sum_list_ge_const: "(\<forall>v \<in> set xs. c \<le> v) \<Longrightarrow> int (length xs) * c \<le> sum_list xs"
  by (induction xs) (auto simp: algebra_simps)

lemma sum_list_gt_const:
  "(\<forall>v \<in> set xs. c \<le> v) \<Longrightarrow> (\<exists>v \<in> set xs. c < v) \<Longrightarrow> int (length xs) * c < sum_list xs"
proof (induction xs)
  case Nil
  then show ?case by simp
next
  case (Cons x xs)
  have ge: "int (length xs) * c \<le> sum_list xs"
    using Cons.prems(1) by (intro sum_list_ge_const) simp
  show ?case
  proof (cases "c < x")
    case True
    then show ?thesis using ge by (simp add: algebra_simps)
  next
    case False
    then have "\<exists>v \<in> set xs. c < v" using Cons.prems(2) by auto
    then have "int (length xs) * c < sum_list xs" using Cons.IH Cons.prems(1) by simp
    moreover have "c \<le> x" using Cons.prems(1) by simp
    ultimately show ?thesis by (simp add: algebra_simps)
  qed
qed

lemma repair_step_cases:
  assumes sh: "shape r m a"
    and over: "any_over_capacity s a"
    and total: "sum_list (row_sums a) \<le> int r * rocket_capacity s"
    and cap: "0 \<le> rocket_capacity s"
    and rng: "in_int32 a"
  obtains x y j t where
    "x < r" "y < r" "x \<noteq> y" "j < m"
    "rocket_capacity s < sum_list (a ! x)" "sum_list (a ! y) < rocket_capacity s"
    "1 \<le> t" "t \<le> a ! x ! j"
    "t = a ! x ! j \<or> t = sum_list (a ! x) - rocket_capacity s"
    "t \<le> sum_list (a ! x) - rocket_capacity s"
    "repair_step s a = Inr (a[x := (a ! x)[j := a ! x ! j - t],
                              y := (a ! y)[j := int32 (a ! y ! j + t)]])"
proof -
  define counts where "counts = row_sums a"
  define x where "x = argmax counts"
  define y where "y = argmin counts"
  define j where "j = argmax (a ! x)"
  define t where "t = min (a ! x ! j) (counts ! x - rocket_capacity s)"
  have len: "length a = r" and rows: "\<And>i. i < r \<Longrightarrow> length (a ! i) = m"
    using sh by (auto simp: shape_def)
  have lc: "length counts = r" by (simp add: counts_def row_sums_def len)
  have cnt: "\<And>i. i < r \<Longrightarrow> counts ! i = sum_list (a ! i)"
    by (simp add: counts_def row_sums_def len)
  obtain i where i: "i < r" "rocket_capacity s < counts ! i"
    using over lc by (auto simp: any_over_capacity_def counts_def[symmetric] in_set_conv_nth)
  then have ne: "counts \<noteq> []" using lc by auto
  have xr: "x < r" using argmax_less[OF ne] lc by (simp add: x_def)
  have yr: "y < r" using argmin_less[OF ne] lc by (simp add: y_def)
  have "counts ! i \<le> counts ! x" using argmax_greatest[of i counts] i lc by (simp add: x_def)
  then have xo: "rocket_capacity s < counts ! x" using i by simp
  have yu: "counts ! y < rocket_capacity s"
  proof (rule ccontr)
    assume "\<not> counts ! y < rocket_capacity s"
    then have "\<forall>v \<in> set counts. rocket_capacity s \<le> v"
      using argmin_least[of _ counts] by (fastforce simp: y_def in_set_conv_nth)
    moreover have "\<exists>v \<in> set counts. rocket_capacity s < v"
      using xo xr lc nth_mem[of x counts] by auto
    ultimately have "int (length counts) * rocket_capacity s < sum_list counts"
      by (rule sum_list_gt_const)
    then show False using total lc by (simp add: counts_def)
  qed
  have xy: "x \<noteq> y" using xo yu by auto
  have sx: "0 < sum_list (a ! x)" using xo cap cnt[OF xr] by simp
  have "\<exists>v \<in> set (a ! x). 0 < v"
  proof (rule ccontr)
    assume "\<not> (\<exists>v \<in> set (a ! x). 0 < v)"
    then have "sum_list (a ! x) \<le> 0" by (intro sum_list_nonpos) (auto simp: not_less)
    then show False using sx by simp
  qed
  then obtain k where k: "k < length (a ! x)" "0 < a ! x ! k"
    by (auto simp: in_set_conv_nth)
  then have nex: "a ! x \<noteq> []" by auto
  have jm: "j < m" using argmax_less[OF nex] rows[OF xr] by (simp add: j_def)
  have "a ! x ! k \<le> a ! x ! j" using argmax_greatest[OF k(1)] by (simp add: j_def)
  then have aj: "1 \<le> a ! x ! j" using k(2) by simp
  have t1: "1 \<le> t" using aj xo by (simp add: t_def)
  have t2: "t \<le> a ! x ! j" by (simp add: t_def)
  have t3: "t = a ! x ! j \<or> t = sum_list (a ! x) - rocket_capacity s"
    using cnt[OF xr] by (auto simp: t_def min_def)
  have t4: "t \<le> sum_list (a ! x) - rocket_capacity s"
    using cnt[OF xr] by (simp add: t_def)
  have "a ! x \<in> set a" using xr len by simp
  then have "a ! x ! j < 2147483648"
    using rng jm rows[OF xr] by (auto simp: in_int32_def)
  then have id: "int32 (a ! x ! j - t) = a ! x ! j - t"
    using t1 t2 by (intro int32_id) auto
  have step: "repair_step s a = Inr (a[x := (a ! x)[j := a ! x ! j - t],
                              y := (a ! y)[j := int32 (a ! y ! j + t)]])"
    using nex xy id
    by (simp add: repair_step_def Let_def counts_def[symmetric] x_def[symmetric]
        y_def[symmetric] j_def[symmetric] t_def[symmetric])
  show ?thesis
    using that[OF xr yr xy jm _ _ t1 t2 t3 t4 step] xo yu cnt[OF xr] cnt[OF yr] by simp
qed

lemma sum_list_map_update_nat:
  fixes f :: "'a \<Rightarrow> nat"
  shows "k < length a \<Longrightarrow> sum_list (map f (a[k := r])) + f (a ! k) = sum_list (map f a) + f r"
proof (induction a arbitrary: k)
  case Nil
  then show ?case by simp
next
  case (Cons b a)
  show ?case
  proof (cases k)
    case 0
    then show ?thesis by simp
  next
    case (Suc i)
    then have "sum_list (map f (a[i := r])) + f (a ! i) = sum_list (map f a) + f r"
      using Cons by simp
    then show ?thesis using Suc by simp
  qed
qed

lemma sum_list_map_update2_less:
  fixes f :: "'a \<Rightarrow> nat"
  assumes "x < length a" "y < length a" "x \<noteq> y" "f rx < f (a ! x)" "f ry \<le> f (a ! y)"
  shows "sum_list (map f (a[x := rx, y := ry])) < sum_list (map f a)"
proof -
  have 1: "sum_list (map f (a[x := rx])) + f (a ! x) = sum_list (map f a) + f rx"
    using assms(1) by (rule sum_list_map_update_nat)
  have "sum_list (map f (a[x := rx, y := ry])) + f ((a[x := rx]) ! y)
        = sum_list (map f (a[x := rx])) + f ry"
    using assms(2) by (intro sum_list_map_update_nat) simp
  moreover have "(a[x := rx]) ! y = a ! y" using assms(3) by simp
  ultimately have "sum_list (map f (a[x := rx, y := ry])) + f (a ! y)
        = sum_list (map f (a[x := rx])) + f ry" by simp
  then show ?thesis using 1 assms(4,5) by linarith
qed

lemma sum_list_update_int:
  fixes xs :: "int list"
  shows "k < length xs \<Longrightarrow> sum_list (xs[k := v]) = sum_list xs + v - xs ! k"
proof (induction xs arbitrary: k)
  case Nil
  then show ?case by simp
next
  case (Cons b xs)
  then show ?case by (cases k) auto
qed

lemma sum_list_update2_int:
  fixes xs :: "int list"
  assumes "x < length xs" "y < length xs" "x \<noteq> y"
  shows "sum_list (xs[x := u, y := v]) = sum_list xs + (u - xs ! x) + (v - xs ! y)"
  using assms by (simp add: sum_list_update_int)

lemma filter_nonzero_update:
  fixes xs :: "int list"
  shows "j < length xs \<Longrightarrow> xs ! j \<noteq> 0 \<Longrightarrow>
     Suc (length (filter (\<lambda>v. v \<noteq> 0) (xs[j := 0]))) = length (filter (\<lambda>v. v \<noteq> 0) xs)"
proof (induction xs arbitrary: j)
  case Nil
  then show ?case by simp
next
  case (Cons a xs)
  then show ?case by (cases j) auto
qed

lemma filter_nonzero_pos:
  fixes xs :: "int list"
  shows "j < length xs \<Longrightarrow> xs ! j \<noteq> 0 \<Longrightarrow> 0 < length (filter (\<lambda>v. v \<noteq> 0) xs)"
  by (metis filter_nonzero_update zero_less_Suc)

lemma row_potential_le: "length row = num_module_types s \<Longrightarrow> row_potential s row \<le> num_module_types s"
  using length_filter_le[of "\<lambda>v. v \<noteq> 0" row] by (auto simp: row_potential_def)

lemma potential_le: "shape r (num_module_types s) a \<Longrightarrow> potential s a \<le> r * num_module_types s"
proof -
  assume sh: "shape r (num_module_types s) a"
  have "sum_list (map (row_potential s) a) \<le> sum_list (map (\<lambda>_. num_module_types s) a)"
    using sh by (intro sum_list_mono) (auto simp: shape_def row_potential_le)
  also have "\<dots> = r * num_module_types s"
    using sh by (simp add: sum_list_triv shape_def)
  finally show ?thesis by (simp add: potential_def)
qed

lemma repair_step_general:
  assumes sh: "shape r (num_module_types s) a"
    and over: "any_over_capacity s a"
    and total: "sum_list (row_sums a) \<le> int r * rocket_capacity s"
    and cap: "0 \<le> rocket_capacity s"
    and rng: "in_int32 a"
  shows "\<exists>a'. repair_step s a = Inr a' \<and> shape r (num_module_types s) a' \<and> in_int32 a'
           \<and> sum_list (row_sums a') \<le> int r * rocket_capacity s
           \<and> potential s a' < potential s a"
proof -
  obtain x y j t where f:
    "x < r" "y < r" "x \<noteq> y" "j < num_module_types s"
    "rocket_capacity s < sum_list (a ! x)" "sum_list (a ! y) < rocket_capacity s"
    "1 \<le> t" "t \<le> a ! x ! j"
    "t = a ! x ! j \<or> t = sum_list (a ! x) - rocket_capacity s"
    "t \<le> sum_list (a ! x) - rocket_capacity s"
    "repair_step s a = Inr (a[x := (a ! x)[j := a ! x ! j - t],
                              y := (a ! y)[j := int32 (a ! y ! j + t)]])"
    using repair_step_cases[OF sh over total cap rng] by metis
  define rx where "rx = (a ! x)[j := a ! x ! j - t]"
  define ry where "ry = (a ! y)[j := int32 (a ! y ! j + t)]"
  define a' where "a' = a[x := rx, y := ry]"
  have len: "length a = r" and rows: "\<And>i. i < r \<Longrightarrow> length (a ! i) = num_module_types s"
    using sh by (auto simp: shape_def)
  have mem: "a ! x \<in> set a" "a ! y \<in> set a" using f(1,2) len by auto
  have lrx: "length rx = num_module_types s" by (simp add: rx_def rows[OF f(1)])
  have lry: "length ry = num_module_types s" by (simp add: ry_def rows[OF f(2)])
  have sub: "set a' \<subseteq> insert rx (insert ry (set a))"
    unfolding a'_def using set_update_subset_insert[of "a[x := rx]" y ry]
      set_update_subset_insert[of a x rx] by auto
  have sh': "shape r (num_module_types s) a'"
    using sub sh lrx lry by (auto simp: shape_def a'_def)
  have rx_rng: "\<forall>v \<in> set rx. - 2147483648 \<le> v \<and> v < 2147483648"
  proof
    fix v assume "v \<in> set rx"
    then have "v = a ! x ! j - t \<or> v \<in> set (a ! x)"
      using set_update_subset_insert[of "a ! x" j "a ! x ! j - t"] by (auto simp: rx_def)
    moreover have "a ! x ! j \<in> set (a ! x)" using f(4) rows[OF f(1)] by simp
    ultimately show "- 2147483648 \<le> v \<and> v < 2147483648"
      using rng mem(1) f(7,8) by (fastforce simp: in_int32_def)
  qed
  have ry_rng: "\<forall>v \<in> set ry. - 2147483648 \<le> v \<and> v < 2147483648"
  proof
    fix v assume "v \<in> set ry"
    then have "v = int32 (a ! y ! j + t) \<or> v \<in> set (a ! y)"
      using set_update_subset_insert[of "a ! y" j] by (auto simp: ry_def)
    then show "- 2147483648 \<le> v \<and> v < 2147483648"
      using rng mem(2) int32_lower[of "a ! y ! j + t"] int32_upper[of "a ! y ! j + t"]
      by (auto simp: in_int32_def)
  qed
  have rng': "in_int32 a'"
    using sub rng rx_rng ry_rng by (auto simp: in_int32_def)
  have srx: "sum_list rx = sum_list (a ! x) - t"
    using f(4) rows[OF f(1)] by (simp add: rx_def sum_list_update_int)
  have "a ! y ! j \<in> set (a ! y)" using f(4) rows[OF f(2)] by simp
  then have "- 2147483648 \<le> a ! y ! j" using rng mem(2) by (auto simp: in_int32_def)
  then have "int32 (a ! y ! j + t) \<le> a ! y ! j + t" using f(7) by (intro int32_le) simp
  moreover have "sum_list ry = sum_list (a ! y) + int32 (a ! y ! j + t) - a ! y ! j"
    using f(4) rows[OF f(2)] by (simp add: ry_def sum_list_update_int)
  ultimately have sry: "sum_list ry \<le> sum_list (a ! y) + t" by simp
  have "row_sums a' = (row_sums a)[x := sum_list rx, y := sum_list ry]"
    by (simp add: row_sums_def a'_def map_update)
  then have "sum_list (row_sums a') = sum_list (row_sums a)
               + (sum_list rx - row_sums a ! x) + (sum_list ry - row_sums a ! y)"
    using f(1,2,3) len by (simp add: sum_list_update2_int row_sums_def)
  then have total': "sum_list (row_sums a') \<le> int r * rocket_capacity s"
    using srx sry total f(1,2) len by (simp add: row_sums_def)
  have ajn: "a ! x ! j \<noteq> 0" using f(7,8) by simp
  have jl: "j < length (a ! x)" using f(4) rows[OF f(1)] by simp
  have px: "row_potential s rx < row_potential s (a ! x)"
  proof (cases "t = sum_list (a ! x) - rocket_capacity s")
    case True
    then have "sum_list rx = rocket_capacity s" using srx by simp
    then have "row_potential s rx = 0" by (simp add: row_potential_def)
    moreover have "0 < row_potential s (a ! x)"
      using f(5) filter_nonzero_pos[OF jl ajn] by (simp add: row_potential_def)
    ultimately show ?thesis by simp
  next
    case False
    then have ta: "t = a ! x ! j" and lt: "t < sum_list (a ! x) - rocket_capacity s"
      using f(9,10) by auto
    have "rocket_capacity s < sum_list rx" using srx lt by simp
    moreover have "rx = (a ! x)[j := 0]" by (simp add: rx_def ta)
    ultimately show ?thesis
      using f(5) filter_nonzero_update[OF jl ajn] by (simp add: row_potential_def)
  qed
  have "row_potential s (a ! y) = num_module_types s" using f(6) by (simp add: row_potential_def)
  then have py: "row_potential s ry \<le> row_potential s (a ! y)"
    using row_potential_le[OF lry] by simp
  have "potential s a' < potential s a"
    unfolding potential_def a'_def
    using f(1,2,3) len px py by (intro sum_list_map_update2_less) auto
  then show ?thesis
    using f(11) sh' rng' total' by (auto simp: a'_def rx_def ry_def)
qed

lemma np_multinomial_outcome:
  "0 < d \<Longrightarrow> 0 \<le> n \<Longrightarrow> \<exists>c g1. np_multinomial n d g = (Inr c, g1) \<and> multinomial_outcome d n c"
proof -
  assume d: "0 < d" and n: "0 \<le> n"
  obtain c g1 where c: "multinomial_counts d n g = (c, g1)" by (cases "multinomial_counts d n g")
  then have "np_multinomial n d g = (Inr c, g1)" using n by (simp add: np_multinomial_def)
  then show ?thesis
    using multinomial_counts_props[OF d n c] by (simp add: multinomial_outcome_def)
qed

lemma set_column_shape:
  "shape r m a \<Longrightarrow> length c = r \<Longrightarrow> shape r m (set_column j c a)"
  by (auto simp: shape_def set_column_def dest!: set_zip_leftD)

lemma column_set_column_same:
  "length c = length a \<Longrightarrow> \<forall>row \<in> set a. j < length row \<Longrightarrow>
     column j (set_column j c a) = map int32 c"
  by (induction c a rule: list_induct2) (auto simp: column_def set_column_def)

lemma column_set_column_other:
  "length c = length a \<Longrightarrow> k \<noteq> j \<Longrightarrow> column k (set_column j c a) = column k a"
  by (induction c a rule: list_induct2) (auto simp: column_def set_column_def)

lemma fill_columns_columns:
  assumes "shape (num_rockets s) (num_module_types s) a"
    and "j + length rest \<le> num_module_types s"
    and "\<forall>n \<in> set rest. 0 \<le> n"
    and "0 < num_rockets s"
  shows "\<exists>a' g'. fill_columns s j rest a g = (Inr a', g')
           \<and> shape (num_rockets s) (num_module_types s) a'
           \<and> (\<forall>k<j. column k a' = column k a)
           \<and> (\<forall>k<length rest. \<exists>c. multinomial_outcome (num_rockets s) (rest ! k) c
                                   \<and> column (j + k) a' = map int32 c)"
  using assms
proof (induction rest arbitrary: j a g)
  case Nil
  then show ?case by simp
next
  case (Cons n rest)
  obtain c g1 where c: "np_multinomial n (num_rockets s) g = (Inr c, g1)"
      "multinomial_outcome (num_rockets s) n c"
    using np_multinomial_outcome[of "num_rockets s" n g] Cons.prems(3,4) by auto
  define a1 where "a1 = set_column j c a"
  have lc: "length c = length a"
    using c(2) Cons.prems(1) by (simp add: multinomial_outcome_def shape_def)
  have jm: "j < num_module_types s" using Cons.prems(2) by simp
  have sh1: "shape (num_rockets s) (num_module_types s) a1"
    unfolding a1_def using Cons.prems(1) lc by (intro set_column_shape) (auto simp: shape_def)
  have cj: "column j a1 = map int32 c"
    unfolding a1_def using lc Cons.prems(1) jm
    by (intro column_set_column_same) (auto simp: shape_def)
  have ck: "\<And>k. k \<noteq> j \<Longrightarrow> column k a1 = column k a"
    unfolding a1_def using lc by (rule column_set_column_other)
  obtain a' g' where r: "fill_columns s (Suc j) rest a1 g1 = (Inr a', g')"
      "shape (num_rockets s) (num_module_types s) a'"
      "\<forall>k<Suc j. column k a' = column k a1"
      "\<forall>k<length rest. \<exists>c. multinomial_outcome (num_rockets s) (rest ! k) c
                                   \<and> column (Suc j + k) a' = map int32 c"
    using Cons.IH[OF sh1, of "Suc j" g1] Cons.prems(2,3,4) by auto
  have 1: "fill_columns s j (n # rest) a g = (Inr a', g')"
    using c(1) jm r(1) by (simp add: a1_def)
  have 2: "\<forall>k<j. column k a' = column k a" using r(3) ck by auto
  have 3: "\<forall>k<length (n # rest). \<exists>c. multinomial_outcome (num_rockets s) ((n # rest) ! k) c
                                   \<and> column (j + k) a' = map int32 c"
  proof (intro allI impI)
    fix k assume k: "k < length (n # rest)"
    show "\<exists>c. multinomial_outcome (num_rockets s) ((n # rest) ! k) c
                                   \<and> column (j + k) a' = map int32 c"
    proof (cases k)
      case 0
      then show ?thesis using c(2) cj r(3) by auto
    next
      case (Suc i)
      then show ?thesis using r(4) k by auto
    qed
  qed
  show ?case using 1 r(2) 2 3 by blast
qed

lemma sum_rows_eq_sum_columns:
  "shape r m a \<Longrightarrow> sum_list (row_sums a) = sum_list (column_sums m a)"
proof (induction a arbitrary: r)
  case Nil
  then show ?case by (simp add: row_sums_def column_sums_def column_def)
next
  case (Cons row a)
  have sh: "shape (length a) m a" and lr: "length row = m"
    using Cons.prems by (auto simp: shape_def)
  have "sum_list (column_sums m (row # a))
        = sum_list (map (\<lambda>j. row ! j) [0..<m]) + sum_list (column_sums m a)"
    by (simp add: column_sums_def column_def sum_list_addf)
  also have "map (\<lambda>j. row ! j) [0..<m] = row" using lr map_nth[of row] by simp
  finally show ?case using Cons.IH[OF sh] by (simp add: row_sums_def)
qed

lemma entry_of_column:
  "i < length a \<Longrightarrow> a ! i ! j = column j a ! i"
  by (simp add: column_def)

lemma sum_list_map_int32_le:
  "\<forall>x \<in> set c. 0 \<le> x \<Longrightarrow> sum_list (map int32 c) \<le> sum_list c"
proof (induction c)
  case Nil
  then show ?case by simp
next
  case (Cons x c)
  have "int32 x \<le> x" using Cons.prems by (intro int32_le) simp
  then show ?case using Cons by simp
qed

lemma elem_le_sum_list_int:
  fixes xs :: "int list"
  shows "\<forall>v \<in> set xs. 0 \<le> v \<Longrightarrow> i < length xs \<Longrightarrow> xs ! i \<le> sum_list xs"
proof (induction xs arbitrary: i)
  case Nil
  then show ?case by simp
next
  case (Cons x xs)
  have s0: "0 \<le> sum_list xs" using Cons.prems(1) by (intro sum_list_nonneg) simp
  show ?case
  proof (cases i)
    case 0
    then show ?thesis using s0 by simp
  next
    case (Suc k)
    then have "xs ! k \<le> sum_list xs" using Cons by simp
    moreover have "0 \<le> x" using Cons.prems(1) by simp
    ultimately show ?thesis using Suc by simp
  qed
qed

lemma map_int32_id:
  "\<forall>x \<in> set c. 0 \<le> x \<and> x < 2147483648 \<Longrightarrow> map int32 c = c"
  by (induction c) (auto simp: int32_id)

lemma fill_columns_initial:
  assumes wf: "wf_settings s"
  shows "\<exists>a g'. fill_columns s 0 (module_amounts s)
                   (replicate (num_rockets s) (replicate (num_module_types s) 0)) g = (Inr a, g')
           \<and> shape (num_rockets s) (num_module_types s) a
           \<and> (\<forall>k<num_module_types s. \<exists>c. multinomial_outcome (num_rockets s) (module_amounts s ! k) c
                                   \<and> column k a = map int32 c)"
proof -
  have "shape (num_rockets s) (num_module_types s)
          (replicate (num_rockets s) (replicate (num_module_types s) 0))"
    by (simp add: shape_def)
  from fill_columns_columns[OF this, of 0 "module_amounts s" g] wf
  show ?thesis by (auto simp: wf_settings_def)
qed

lemma columns_int32_general:
  assumes sh: "shape r m a"
    and len: "length ns = m"
    and cols: "\<forall>k<m. \<exists>c. multinomial_outcome r (ns ! k) c \<and> column k a = map int32 c"
  shows "in_int32 a" and "sum_list (row_sums a) \<le> sum_list ns"
proof -
  show "in_int32 a"
    unfolding in_int32_def
  proof (intro ballI)
    fix row v assume row: "row \<in> set a" and v: "v \<in> set row"
    obtain i where i: "i < length a" "row = a ! i" using row by (auto simp: in_set_conv_nth)
    obtain k where k: "k < length row" "v = row ! k" using v by (auto simp: in_set_conv_nth)
    have km: "k < m" using sh row k(1) by (auto simp: shape_def)
    obtain c where c: "column k a = map int32 c" using cols km by blast
    have "length c = length a" using c by (metis length_map column_def)
    then have "v = int32 (c ! i)"
      using entry_of_column[OF i(1), of k] c i k by simp
    then show "- 2147483648 \<le> v \<and> v < 2147483648"
      using int32_lower int32_upper by simp
  qed
  have "\<forall>k<m. column_sums m a ! k \<le> ns ! k"
  proof (intro allI impI)
    fix k assume km: "k < m"
    obtain c where c: "multinomial_outcome r (ns ! k) c" "column k a = map int32 c"
      using cols km by blast
    have "sum_list (map int32 c) \<le> sum_list c"
      using c(1) by (intro sum_list_map_int32_le) (simp add: multinomial_outcome_def)
    then show "column_sums m a ! k \<le> ns ! k"
      using c km by (simp add: column_sums_def multinomial_outcome_def)
  qed
  then have "sum_list (column_sums m a) \<le> sum_list ns"
    using len by (intro sum_list_mono2) (auto simp: column_sums_def)
  then show "sum_list (row_sums a) \<le> sum_list ns"
    using sum_rows_eq_sum_columns[OF sh] by simp
qed

lemma columns_int32_exact:
  assumes sh: "shape r m a"
    and len: "length ns = m"
    and small: "\<forall>n \<in> set ns. n < 2147483648"
    and cols: "\<forall>k<m. \<exists>c. multinomial_outcome r (ns ! k) c \<and> column k a = map int32 c"
  shows "nonneg a" and "column_sums m a = ns"
proof -
  have colk: "\<forall>k<m. multinomial_outcome r (ns ! k) (column k a)"
  proof (intro allI impI)
    fix k assume km: "k < m"
    obtain c where c: "multinomial_outcome r (ns ! k) c" "column k a = map int32 c"
      using cols km by blast
    have "ns ! k < 2147483648" using small km len by simp
    then have "\<forall>x \<in> set c. 0 \<le> x \<and> x < 2147483648"
      using c(1) elem_le_sum_list_int[of c]
      by (fastforce simp: multinomial_outcome_def in_set_conv_nth)
    then have "map int32 c = c" by (rule map_int32_id)
    then show "multinomial_outcome r (ns ! k) (column k a)" using c by simp
  qed
  show "nonneg a"
    unfolding nonneg_def
  proof (intro ballI)
    fix row v assume row: "row \<in> set a" and v: "v \<in> set row"
    obtain i where i: "i < length a" "row = a ! i" using row by (auto simp: in_set_conv_nth)
    obtain k where k: "k < length row" "v = row ! k" using v by (auto simp: in_set_conv_nth)
    have km: "k < m" using sh row k(1) by (auto simp: shape_def)
    have "v = column k a ! i" using entry_of_column[OF i(1), of k] i k by simp
    moreover have "i < length (column k a)" using i by (simp add: column_def)
    ultimately show "0 \<le> v"
      using colk km by (auto simp: multinomial_outcome_def)
  qed
  show "column_sums m a = ns"
    using colk len by (intro nth_equalityI) (auto simp: column_sums_def multinomial_outcome_def)
qed

lemma column_sums_nth: "k < m \<Longrightarrow> column_sums m a ! k = sum_list (column k a)"
  by (simp add: column_sums_def)

lemma feasible_capacity_nonneg:
  assumes "wf_settings s" "feasible s"
  shows "0 \<le> rocket_capacity s"
proof (rule ccontr)
  assume "\<not> 0 \<le> rocket_capacity s"
  then have "rocket_capacity s < 0" by simp
  moreover have "0 < int (num_rockets s)" using assms(1) by (simp add: wf_settings_def)
  ultimately have "int (num_rockets s) * rocket_capacity s < 0"
    by (simp add: mult_pos_neg)
  moreover have "0 \<le> sum_list (module_amounts s)"
    using assms(1) by (intro sum_list_nonneg) (simp add: wf_settings_def)
  ultimately show False using assms(2) by (simp add: feasible_def)
qed

lemma nonneg_column:
  assumes "shape r m a" "nonneg a" "k < m"
  shows "\<forall>v \<in> set (column k a). 0 \<le> v"
  using assms by (auto simp: column_def shape_def nonneg_def)

lemma exact_in_int32:
  assumes wf: "wf_settings s" and fits: "fits_int32 s" and ex: "exact s a"
  shows "in_int32 a"
  unfolding in_int32_def
proof (intro ballI)
  fix row v assume row: "row \<in> set a" and v: "v \<in> set row"
  have sh: "shape (num_rockets s) (num_module_types s) a" and nn: "nonneg a"
    and cs: "column_sums (num_module_types s) a = module_amounts s"
    using ex by (auto simp: exact_def)
  obtain i where i: "i < length a" "row = a ! i" using row by (auto simp: in_set_conv_nth)
  obtain k where k: "k < length row" "v = row ! k" using v by (auto simp: in_set_conv_nth)
  have km: "k < num_module_types s" using sh row k(1) by (auto simp: shape_def)
  have v0: "0 \<le> v" using nn row v by (auto simp: nonneg_def)
  have "v = column k a ! i" using entry_of_column[OF i(1), of k] i k by simp
  moreover have "i < length (column k a)" using i by (simp add: column_def)
  ultimately have "v \<le> sum_list (column k a)"
    using elem_le_sum_list_int[OF nonneg_column[OF sh nn km]] by simp
  also have "sum_list (column k a) = module_amounts s ! k"
    using column_sums_nth[OF km, of a] cs by simp
  also have "\<dots> < 2147483648"
    using fits wf km by (simp add: fits_int32_def wf_settings_def)
  finally show "- 2147483648 \<le> v \<and> v < 2147483648" using v0 by simp
qed

lemma exact_total:
  assumes "feasible s" "exact s a"
  shows "sum_list (row_sums a) \<le> int (num_rockets s) * rocket_capacity s"
  using assms sum_rows_eq_sum_columns[of "num_rockets s" "num_module_types s" a]
  by (simp add: exact_def feasible_def)

lemma two_le_sum_list:
  fixes xs :: "int list"
  assumes "\<forall>v \<in> set xs. 0 \<le> v" "x < length xs" "y < length xs" "x \<noteq> y"
  shows "xs ! x + xs ! y \<le> sum_list xs"
proof -
  have "\<forall>v \<in> set (xs[x := 0, y := 0]). 0 \<le> v"
    using assms(1) set_update_subset_insert[of "xs[x := 0]" y 0]
      set_update_subset_insert[of xs x 0] by auto
  then have "0 \<le> sum_list (xs[x := 0, y := 0])" by (intro sum_list_nonneg) simp
  then show ?thesis using sum_list_update2_int[OF assms(2,3,4), of 0 0] by simp
qed

lemma column_update2:
  "column k (a[x := rx, y := ry]) = (column k a)[x := rx ! k, y := ry ! k]"
  by (simp add: column_def map_update)

lemma repair_step_exact:
  assumes wf: "wf_settings s" and fits: "fits_int32 s" and feas: "feasible s"
    and ex: "exact s a" and over: "any_over_capacity s a"
    and step: "repair_step s a = Inr a'"
  shows "exact s a'"
proof -
  have sh: "shape (num_rockets s) (num_module_types s) a" and nn: "nonneg a"
    and cs: "column_sums (num_module_types s) a = module_amounts s"
    using ex by (auto simp: exact_def)
  have rng: "in_int32 a" using exact_in_int32[OF wf fits ex] .
  obtain x y j t where f:
    "x < num_rockets s" "y < num_rockets s" "x \<noteq> y" "j < num_module_types s"
    "1 \<le> t" "t \<le> a ! x ! j"
    "repair_step s a = Inr (a[x := (a ! x)[j := a ! x ! j - t],
                              y := (a ! y)[j := int32 (a ! y ! j + t)]])"
    using repair_step_cases[OF sh over exact_total[OF feas ex]
        feasible_capacity_nonneg[OF wf feas] rng] by metis
  have len: "length a = num_rockets s"
    and rows: "\<And>i. i < num_rockets s \<Longrightarrow> length (a ! i) = num_module_types s"
    using sh by (auto simp: shape_def)
  have mem: "a ! x \<in> set a" "a ! y \<in> set a" using f(1,2) len by auto
  have ayj: "0 \<le> a ! y ! j" using nn mem(2) f(4) rows[OF f(2)] by (auto simp: nonneg_def)
  have coln: "\<forall>v \<in> set (column j a). 0 \<le> v" using nonneg_column[OF sh nn f(4)] .
  have "column j a ! x + column j a ! y \<le> sum_list (column j a)"
    using f(1,2,3) len by (intro two_le_sum_list[OF coln]) (auto simp: column_def)
  also have "sum_list (column j a) = module_amounts s ! j"
    using column_sums_nth[OF f(4), of a] cs by simp
  also have "\<dots> < 2147483648"
    using fits wf f(4) by (simp add: fits_int32_def wf_settings_def)
  finally have "a ! x ! j + a ! y ! j < 2147483648"
    using f(1,2) len by (simp add: column_def)
  then have id: "int32 (a ! y ! j + t) = a ! y ! j + t"
    using f(5,6) ayj by (intro int32_id) auto
  define rx where "rx = (a ! x)[j := a ! x ! j - t]"
  define ry where "ry = (a ! y)[j := a ! y ! j + t]"
  have a': "a' = a[x := rx, y := ry]" using step f(7) id by (simp add: rx_def ry_def)
  have lrx: "length rx = num_module_types s" by (simp add: rx_def rows[OF f(1)])
  have lry: "length ry = num_module_types s" by (simp add: ry_def rows[OF f(2)])
  have sub: "set a' \<subseteq> insert rx (insert ry (set a))"
    unfolding a' using set_update_subset_insert[of "a[x := rx]" y ry]
      set_update_subset_insert[of a x rx] by auto
  have sh': "shape (num_rockets s) (num_module_types s) a'"
    using sub sh lrx lry by (auto simp: shape_def a')
  have "\<forall>v \<in> set rx. 0 \<le> v"
    using set_update_subset_insert[of "a ! x" j "a ! x ! j - t"] nn mem(1) f(6)
    by (auto simp: rx_def nonneg_def)
  moreover have "\<forall>v \<in> set ry. 0 \<le> v"
    using set_update_subset_insert[of "a ! y" j "a ! y ! j + t"] nn mem(2) f(5) ayj
    by (auto simp: ry_def nonneg_def)
  ultimately have nn': "nonneg a'" using sub nn by (auto simp: nonneg_def)
  have "\<forall>k<num_module_types s. sum_list (column k a') = sum_list (column k a)"
  proof (intro allI impI)
    fix k assume km: "k < num_module_types s"
    have "sum_list (column k a') = sum_list (column k a)
            + (rx ! k - column k a ! x) + (ry ! k - column k a ! y)"
      unfolding a' column_update2
      using f(1,2,3) len by (intro sum_list_update2_int) (auto simp: column_def)
    moreover have "rx ! k - column k a ! x + (ry ! k - column k a ! y) = 0"
      using f(1,2) len km rows[OF f(1)] rows[OF f(2)]
      by (cases "k = j") (auto simp: rx_def ry_def column_def)
    ultimately show "sum_list (column k a') = sum_list (column k a)" by simp
  qed
  then have "column_sums (num_module_types s) a' = column_sums (num_module_types s) a"
    by (simp add: column_sums_def)
  then show ?thesis using sh' nn' cs by (simp add: exact_def)
qed

lemma repair_within_imp_repair:
  "repair_within n s a = Some r \<Longrightarrow> repair s a = Some r"
proof (induction n arbitrary: a)
  case 0
  then show ?case by (subst repair.simps) (simp split: if_splits)
next
  case (Suc n)
  show ?case
  proof (cases "any_over_capacity s a")
    case False
    then show ?thesis using Suc.prems by (subst repair.simps) simp
  next
    case True
    show ?thesis
    proof (cases "repair_step s a")
      case (Inl e)
      then have "r = Inl e" using True Suc.prems by simp
      then show ?thesis using True Inl by (subst repair.simps) simp
    next
      case (Inr a1)
      then have "repair_within n s a1 = Some r" using True Suc.prems by simp
      then have "repair s a1 = Some r" by (rule Suc.IH)
      then show ?thesis using True Inr by (subst repair.simps) simp
    qed
  qed
qed

lemma repair_within_terminates:
  assumes "shape r (num_module_types s) a"
    and "in_int32 a"
    and "sum_list (row_sums a) \<le> int r * rocket_capacity s"
    and "0 \<le> rocket_capacity s"
    and "potential s a \<le> n"
  shows "\<exists>a'. repair_within n s a = Some (Inr a') \<and> \<not> any_over_capacity s a'
              \<and> shape r (num_module_types s) a'"
  using assms
proof (induction n arbitrary: a)
  case 0
  have "\<not> any_over_capacity s a"
  proof
    assume "any_over_capacity s a"
    from repair_step_general[OF "0.prems"(1) this "0.prems"(3,4,2)] "0.prems"(5)
    show False by auto
  qed
  then show ?case using "0.prems"(1) by simp
next
  case (Suc n)
  show ?case
  proof (cases "any_over_capacity s a")
    case False
    then show ?thesis using Suc.prems(1) by simp
  next
    case True
    from repair_step_general[OF Suc.prems(1) True Suc.prems(3,4,2)]
    obtain a1 where a1: "repair_step s a = Inr a1" "shape r (num_module_types s) a1"
      "in_int32 a1" "sum_list (row_sums a1) \<le> int r * rocket_capacity s"
      "potential s a1 < potential s a" by blast
    have "potential s a1 \<le> n" using a1(5) Suc.prems(5) by simp
    from Suc.IH[OF a1(2,3,4) Suc.prems(4) this] a1(1) True
    show ?thesis by simp
  qed
qed

lemma repair_within_exact:
  assumes "wf_settings s" "fits_int32 s" "feasible s"
  shows "exact s a \<Longrightarrow> repair_within n s a = Some (Inr a') \<Longrightarrow> exact s a'"
proof (induction n arbitrary: a)
  case 0
  then show ?case by (simp split: if_splits)
next
  case (Suc n)
  show ?case
  proof (cases "any_over_capacity s a")
    case False
    then show ?thesis using Suc.prems by simp
  next
    case True
    show ?thesis
    proof (cases "repair_step s a")
      case (Inl e)
      then show ?thesis using True Suc.prems by simp
    next
      case (Inr a1)
      have "exact s a1" using repair_step_exact[OF assms Suc.prems(1) True Inr] .
      moreover have "repair_within n s a1 = Some (Inr a')" using True Inr Suc.prems(2) by simp
      ultimately show ?thesis by (rule Suc.IH)
    qed
  qed
qed

lemma random_allocation_repaired:
  assumes wf: "wf_settings s" and feas: "feasible s"
  shows "\<exists>a g1 a'.
           fill_columns s 0 (module_amounts s)
             (replicate (num_rockets s) (replicate (num_module_types s) 0)) g = (Inr a, g1)
         \<and> repair_within (num_rockets s * num_module_types s) s a = Some (Inr a')
         \<and> \<not> any_over_capacity s a'
         \<and> shape (num_rockets s) (num_module_types s) a'
         \<and> (fits_int32 s \<longrightarrow> exact s a')"
proof -
  obtain a g1 where a:
    "fill_columns s 0 (module_amounts s)
       (replicate (num_rockets s) (replicate (num_module_types s) 0)) g = (Inr a, g1)"
    "shape (num_rockets s) (num_module_types s) a"
    "\<forall>k<num_module_types s. \<exists>c. multinomial_outcome (num_rockets s) (module_amounts s ! k) c
                                   \<and> column k a = map int32 c"
    using fill_columns_initial[OF wf, of g] by blast
  have len: "length (module_amounts s) = num_module_types s"
    using wf by (simp add: wf_settings_def)
  have rng: "in_int32 a" using columns_int32_general(1)[OF a(2) len a(3)] .
  have "sum_list (row_sums a) \<le> sum_list (module_amounts s)"
    using columns_int32_general(2)[OF a(2) len a(3)] .
  then have total: "sum_list (row_sums a) \<le> int (num_rockets s) * rocket_capacity s"
    using feas by (simp add: feasible_def)
  have pot: "potential s a \<le> num_rockets s * num_module_types s"
    using potential_le[OF a(2)] .
  obtain a' where a': "repair_within (num_rockets s * num_module_types s) s a = Some (Inr a')"
    "\<not> any_over_capacity s a'" "shape (num_rockets s) (num_module_types s) a'"
    using repair_within_terminates[OF a(2) rng total feasible_capacity_nonneg[OF wf feas] pot]
    by blast
  have "fits_int32 s \<longrightarrow> exact s a'"
  proof
    assume fits: "fits_int32 s"
    have "exact s a"
      using columns_int32_exact[OF a(2) len _ a(3)] fits a(2)
      by (simp add: exact_def fits_int32_def)
    then show "exact s a'" using repair_within_exact[OF wf fits feas _ a'(1)] by simp
  qed
  then show ?thesis using a(1) a' by blast
qed

lemma generate_random_modules_allocation_ok:
  assumes wf: "wf_settings s" and feas: "feasible s"
  shows "\<exists>a' g1. generate_random_modules_allocation s g = Some (Inr a', g1)
           \<and> \<not> any_over_capacity s a'
           \<and> shape (num_rockets s) (num_module_types s) a'
           \<and> (fits_int32 s \<longrightarrow> exact s a')"
proof -
  obtain a g1 a' where r:
    "fill_columns s 0 (module_amounts s)
             (replicate (num_rockets s) (replicate (num_module_types s) 0)) g = (Inr a, g1)"
    "repair_within (num_rockets s * num_module_types s) s a = Some (Inr a')"
    "\<not> any_over_capacity s a'"
    "shape (num_rockets s) (num_module_types s) a'"
    "fits_int32 s \<longrightarrow> exact s a'"
    using random_allocation_repaired[OF wf feas, of g] by blast
  have "0 \<le> sum_list (module_amounts s)"
    using wf by (intro sum_list_nonneg) (simp add: wf_settings_def)
  then have "int64 (sum_list (module_amounts s)) \<le> sum_list (module_amounts s)"
    by (intro int64_le) simp
  then have fits: "\<not> int (num_rockets s) * rocket_capacity s
                      < int64 (sum_list (module_amounts s))"
    using feas by (simp add: feasible_def)
  have "repair s a = Some (Inr a')" using repair_within_imp_repair[OF r(2)] .
  then have "generate_random_modules_allocation s g = Some (Inr a', g1)"
    using r(1) fits by (simp add: generate_random_modules_allocation_def)
  then show ?thesis using r(3,4,5) by blast
qed

lemma generate_types_ok:
  assumes "0 < num_rocket_types s"
  shows "\<exists>types g1. generate_random_rockets_type_allocation s g = (Inr types, g1)
           \<and> length types = num_rockets s \<and> (\<forall>t \<in> set types. t < num_rocket_types s)"
proof (cases "num_rocket_types s = 1")
  case True
  then show ?thesis
    by (simp add: generate_random_rockets_type_allocation_def np_randint_def)
next
  case False
  then show ?thesis using assms
    by (simp add: generate_random_rockets_type_allocation_def np_randint_def draws_def)
qed

lemma generate_random_solution_ok:
  assumes wf: "wf_settings s" and feas: "feasible s" and fits: "fits_int32 s"
  shows "\<exists>solution g1. generate_random_solution s g = Some (Inr solution, g1)
           \<and> is_valid_capacity solution s \<and> is_valid_module_total solution s
           \<and> length (rocket_type_allocation solution) = num_rockets s
           \<and> (\<forall>t \<in> set (rocket_type_allocation solution). t < num_rocket_types s)
           \<and> exact s (module_allocation solution)"
proof -
  have "0 < num_rocket_types s" using wf by (simp add: wf_settings_def)
  then obtain types g0 where t: "generate_random_rockets_type_allocation s g = (Inr types, g0)"
    "length types = num_rockets s" "\<forall>t \<in> set types. t < num_rocket_types s"
    using generate_types_ok[of s g] by blast
  obtain a' g1 where a: "generate_random_modules_allocation s g0 = Some (Inr a', g1)"
    "\<not> any_over_capacity s a'" "exact s a'"
    using generate_random_modules_allocation_ok[OF wf feas, of g0] fits by blast
  define solution where "solution = \<lparr>rocket_type_allocation = types, module_allocation = a'\<rparr>"
  have vc: "is_valid_capacity solution s"
    using a(2) by (auto simp: is_valid_capacity_def any_over_capacity_def solution_def)
  have vm: "is_valid_module_total solution s"
    using a(3) by (simp add: is_valid_module_total_def exact_def solution_def)
  have "generate_random_solution s g = Some (Inr solution, g1)"
    using t(1) a(1) vc vm by (simp add: generate_random_solution_def solution_def)
  then show ?thesis using vc vm t(2,3) a(3) by (auto simp: solution_def)
qed

section \<open>The random generator: claims C7 and C1\<close>

lemma tight_settings_wf: "wf_settings tight_settings \<and> feasible tight_settings \<and> fits_int32 tight_settings"
  by (simp add: wf_settings_def feasible_def fits_int32_def tight_settings_def)

lemma tight_settings_fill:
  "fill_columns tight_settings 0 (module_amounts tight_settings)
     (replicate (num_rockets tight_settings) (replicate (num_module_types tight_settings) 0))
     (constant_rng 8) = (Inr [[8], [0]], (constant_rng 8)\<lparr>cursor := 1\<rparr>)"
  by (simp add: tight_settings_def np_multinomial_def set_column_def int32_def numeral_2_eq_2
      next_draw_def constant_rng_def Let_def)

lemma tight_settings_step: "repair_step tight_settings [[8], [0]] = Inr [[5], [3]]"
  by (simp add: repair_step_def tight_settings_def row_sums_def int32_def Let_def)

lemma tight_settings_repair: "repair_within 2 tight_settings [[8], [0]] = Some (Inr [[5], [3]])"
  by (simp add: numeral_2_eq_2 tight_settings_step any_over_capacity_def row_sums_def)
     (simp add: tight_settings_def)

text \<open>
  Claim C7. For every feasible Configuration and every outcome of the random draws, the
  capacity-repair \<^verbatim>\<open>while\<close> loop, started on the matrix that the multinomial draws
  filled, terminates: it leaves after at most \<open>num_rockets * num_module_types\<close>
  iterations of its body, without an exception and with no row over the capacity. This
  holds whatever the int32 stores do to large amounts.
\<close>

theorem repair_loop_terminates_within_bound:
  assumes "wf_settings s" and "feasible s"
  shows "\<exists>a g1 a'.
           fill_columns s 0 (module_amounts s)
             (replicate (num_rockets s) (replicate (num_module_types s) 0)) g = (Inr a, g1)
         \<and> repair_within (num_rockets s * num_module_types s) s a = Some (Inr a')
         \<and> repair s a = Some (Inr a')
         \<and> \<not> any_over_capacity s a'"
proof -
  obtain a g1 a' where r:
    "fill_columns s 0 (module_amounts s)
             (replicate (num_rockets s) (replicate (num_module_types s) 0)) g = (Inr a, g1)"
    "repair_within (num_rockets s * num_module_types s) s a = Some (Inr a')"
    "\<not> any_over_capacity s a'"
    using random_allocation_repaired[OF assms, of g] by blast
  have "repair s a = Some (Inr a')" using repair_within_imp_repair[OF r(2)] .
  then show ?thesis using r by blast
qed

theorem repair_loop_terminates_within_bound_witness:
  "wf_settings tight_settings \<and> feasible tight_settings
   \<and> repair_within (num_rockets tight_settings * num_module_types tight_settings)
        tight_settings [[8], [0]] = Some (Inr [[5], [3]])
   \<and> repair tight_settings [[8], [0]] = Some (Inr [[5], [3]])
   \<and> \<not> any_over_capacity tight_settings [[5], [3]]"
proof -
  have wf: "wf_settings tight_settings" and feas: "feasible tight_settings"
    using tight_settings_wf by simp_all
  obtain a g1 a' where r:
    "fill_columns tight_settings 0 (module_amounts tight_settings)
       (replicate (num_rockets tight_settings) (replicate (num_module_types tight_settings) 0))
       (constant_rng 8) = (Inr a, g1)"
    "repair_within (num_rockets tight_settings * num_module_types tight_settings)
       tight_settings a = Some (Inr a')"
    "repair tight_settings a = Some (Inr a')"
    "\<not> any_over_capacity tight_settings a'"
    using repair_loop_terminates_within_bound[OF wf feas, of "constant_rng 8"] by blast
  have a: "a = [[8], [0]]" using r(1) tight_settings_fill by simp
  have "num_rockets tight_settings * num_module_types tight_settings = 2"
    by (simp add: tight_settings_def)
  then have a': "a' = [[5], [3]]" using r(2) a tight_settings_repair by simp
  show ?thesis using wf feas r(2,3,4) a a' by simp
qed

text \<open>
  Where every amount is below \<open>2^31\<close> no store into the int32 matrix wraps: for every
  feasible Configuration and every outcome of the random draws,
  \<^verbatim>\<open>generate_random_solution\<close> returns a Solution that passes both validators.
\<close>

lemma generate_random_solution_valid:
  assumes "wf_settings s" and "feasible s" and "fits_int32 s"
  shows "\<exists>solution g1. generate_random_solution s g = Some (Inr solution, g1)
           \<and> is_valid_capacity solution s \<and> is_valid_module_total solution s"
  using generate_random_solution_ok[OF assms, of g] by blast

lemma big_settings_wf: "wf_settings big_settings"
  by (simp add: wf_settings_def big_settings_def)

text \<open>
  Claim C1 does not hold of the code. On the feasible Configuration of one rocket of
  capacity \<open>2^31\<close> and a demand of \<open>2^31\<close>, the count \<open>2^31\<close> is stored in the int32
  matrix as \<open>-2^31\<close>, the column sum is no longer the amount, and the generator raises
  the RuntimeError of its own check.
\<close>

theorem generate_random_solution_int32_overflow:
  "feasible big_settings
   \<and> module_amounts big_settings = [2147483648]
   \<and> fill_columns big_settings 0 (module_amounts big_settings) [[0]] (constant_rng 0)
       = (Inr [[- 2147483648]], constant_rng 0)
   \<and> generate_random_solution big_settings (constant_rng 0)
       = Some (Inl (RuntimeError ''Solution is not valid.''), constant_rng 0)"
  by (simp add: generate_random_solution_def generate_random_rockets_type_allocation_def
      np_randint_def generate_random_modules_allocation_def big_settings_def
      np_multinomial_def set_column_def int32_def int64_def repair.simps any_over_capacity_def
      row_sums_def is_valid_capacity_def is_valid_module_total_def column_sums_def column_def
      feasible_def)

section \<open>Infeasible configurations and the constructor: claims C8 and C9\<close>

lemma generate_random_modules_allocation_infeasible:
  assumes "\<not> feasible s" and "demand_in_int64 s"
  shows "generate_random_modules_allocation s g
           = Some (Inl (ValueError ''Not enough capacity to carry all modules.''), g)"
proof -
  have "sum_list (module_amounts s) \<le> int64 (sum_list (module_amounts s))"
    using assms(2) by (intro int64_ge) (simp add: demand_in_int64_def)
  then show ?thesis
    using assms(1) by (simp add: generate_random_modules_allocation_def feasible_def)
qed

text \<open>
  Claim C8, as the code has it. For every infeasible Configuration (with at least one
  rocket type, and a total demand below \<open>2^63\<close>, which the int64 sum of the check
  holds) \<^verbatim>\<open>generate_random_solution\<close> raises
  \<^verbatim>\<open>ValueError('Not enough capacity to carry all modules.')\<close>, the error the code has
  for it. The check is the first statement of \<^verbatim>\<open>generate_random_modules_allocation\<close>,
  which raises before it draws or allocates anything (its generator is returned as it
  was given). But the rocket-type allocation is the first argument of the
  \<^verbatim>\<open>Solution(...)\<close> call and is evaluated before it: when the error is raised, an array
  of \<open>num_rockets\<close> rocket types has been constructed.
\<close>

theorem infeasible_raises_after_type_allocation:
  assumes "\<not> feasible s" and "0 < num_rocket_types s" and "demand_in_int64 s"
  shows "\<exists>types g1.
           generate_random_rockets_type_allocation s g = (Inr types, g1)
         \<and> length types = num_rockets s
         \<and> generate_random_modules_allocation s g1
             = Some (Inl (ValueError ''Not enough capacity to carry all modules.''), g1)
         \<and> generate_random_solution s g
             = Some (Inl (ValueError ''Not enough capacity to carry all modules.''), g1)"
proof -
  obtain types g1 where t: "generate_random_rockets_type_allocation s g = (Inr types, g1)"
    "length types = num_rockets s"
    using generate_types_ok[OF assms(2), of g] by blast
  have m: "generate_random_modules_allocation s g1
             = Some (Inl (ValueError ''Not enough capacity to carry all modules.''), g1)"
    using generate_random_modules_allocation_infeasible[OF assms(1,3)] .
  have "generate_random_solution s g
             = Some (Inl (ValueError ''Not enough capacity to carry all modules.''), g1)"
    using t(1) m by (simp add: generate_random_solution_def)
  then show ?thesis using t m by blast
qed

lemma infeasible_settings_types:
  "generate_random_rockets_type_allocation infeasible_settings (constant_rng 0)
     = (Inr [0], (constant_rng 0)\<lparr>cursor := 1\<rparr>)"
  by (simp add: generate_random_rockets_type_allocation_def np_randint_def draws_def
      infeasible_settings_def constant_rng_def)

theorem infeasible_raises_after_type_allocation_witness:
  "\<not> feasible infeasible_settings \<and> 0 < num_rocket_types infeasible_settings
   \<and> demand_in_int64 infeasible_settings
   \<and> generate_random_modules_allocation infeasible_settings ((constant_rng 0)\<lparr>cursor := 1\<rparr>)
       = Some (Inl (ValueError ''Not enough capacity to carry all modules.''),
               (constant_rng 0)\<lparr>cursor := 1\<rparr>)
   \<and> generate_random_solution infeasible_settings (constant_rng 0)
       = Some (Inl (ValueError ''Not enough capacity to carry all modules.''),
               (constant_rng 0)\<lparr>cursor := 1\<rparr>)"
proof -
  have f: "\<not> feasible infeasible_settings" by (simp add: feasible_def infeasible_settings_def)
  have t: "0 < num_rocket_types infeasible_settings" by (simp add: infeasible_settings_def)
  have d: "demand_in_int64 infeasible_settings"
    by (simp add: demand_in_int64_def infeasible_settings_def)
  show ?thesis
    using infeasible_raises_after_type_allocation[OF f t d, of "constant_rng 0"] f t d
      infeasible_settings_types
    by auto
qed

text \<open>
  Claim C8 as stated fails on the scenario of the specification (one rocket of capacity
  1, a demand of 5), here with two rocket types: the rocket-type allocation \<open>[0]\<close> is
  constructed, with a draw of the generator, before the check fires.
\<close>

theorem infeasible_check_counterexample:
  "\<not> feasible infeasible_settings
   \<and> generate_random_rockets_type_allocation infeasible_settings (constant_rng 0)
       = (Inr [0], (constant_rng 0)\<lparr>cursor := 1\<rparr>)
   \<and> generate_random_solution infeasible_settings (constant_rng 0)
       = Some (Inl (ValueError ''Not enough capacity to carry all modules.''),
               (constant_rng 0)\<lparr>cursor := 1\<rparr>)"
  by (simp add: feasible_def infeasible_settings_def generate_random_solution_def
      generate_random_rockets_type_allocation_def np_randint_def draws_def
      generate_random_modules_allocation_def constant_rng_def int64_def)

text \<open>
  Beyond \<open>2^63\<close> the int64 sum of the check is not the demand. One rocket of capacity 1
  cannot carry two amounts of \<open>2^62\<close>, but their int64 sum is \<open>-2^63\<close> and the check
  does not fire; both counts are stored in the int32 matrix as 0 and the generator ends
  in the RuntimeError of its own validation.
\<close>

lemma wrapped_demand_run:
  "\<not> feasible wrapped_settings
   \<and> int64 (sum_list (module_amounts wrapped_settings)) = - 9223372036854775808
   \<and> generate_random_solution wrapped_settings (constant_rng 0)
       = Some (Inl (RuntimeError ''Solution is not valid.''), constant_rng 0)"
  by (simp add: generate_random_solution_def generate_random_rockets_type_allocation_def
      np_randint_def generate_random_modules_allocation_def wrapped_settings_def
      np_multinomial_def set_column_def int32_def int64_def repair.simps any_over_capacity_def
      row_sums_def is_valid_capacity_def is_valid_module_total_def column_sums_def column_def
      feasible_def numeral_2_eq_2)

text \<open>
  Claim C9, as the code has it. \<^verbatim>\<open>BeesSolver.__init__\<close> stores its arguments and
  checks nothing: for all arguments it returns a solver with an empty population, and
  it raises no exception.
\<close>

theorem constructor_never_raises:
  "BeesSolver_init s p mm rm es ns ess nss =
     Inr \<lparr>settings = s, population_size = p, modules_mutations = mm,
          rockets_type_mutations = rm, elite_sites = es, normal_sites = ns,
          elite_site_size = ess, normal_site_size = nss, population = []\<rparr>
   \<and> (\<forall>e. BeesSolver_init s p mm rm es ns ess nss \<noteq> Inl e)"
  by (simp add: BeesSolver_init_def)

text \<open>
  Claim C9 as stated fails with \<open>eliteSites = normalSites = 1\<close> and
  \<open>populationSize = 1\<close>: the constructor returns a solver.
\<close>

theorem constructor_counterexample:
  "BeesSolver_init scenario_settings 1 0 0 1 1 0 0 = Inr crowded_solver
   \<and> population_size crowded_solver < elite_sites crowded_solver + normal_sites crowded_solver"
  by (simp add: BeesSolver_init_def crowded_solver_def)

section \<open>The two mutations: claims C6, C10 and C5\<close>

lemma py_randrange_pos:
  "0 < n \<Longrightarrow> py_randrange n g
     = (Inr (outcomes g (cursor g) mod n), g\<lparr>cursor := Suc (cursor g)\<rparr>)"
  by (simp add: py_randrange_def next_draw_def)

lemma scenario_wf: "wf_settings scenario_settings \<and> feasible scenario_settings
    \<and> fits_int32 scenario_settings"
  by (simp add: wf_settings_def feasible_def fits_int32_def scenario_settings_def)

lemma cheap_feasible: "feasible_solution scenario_settings cheap_solution"
  by (simp add: feasible_solution_def scenario_settings_def cheap_solution_def shape_def
      nonneg_def in_int32_def is_valid_capacity_def is_valid_module_total_def row_sums_def
      column_sums_def column_def)

lemma example_feasible: "feasible_solution scenario_settings example_solution"
  by (simp add: feasible_solution_def scenario_settings_def example_solution_def shape_def
      nonneg_def in_int32_def is_valid_capacity_def is_valid_module_total_def row_sums_def
      column_sums_def column_def)

lemma huge_feasible: "wf_settings huge_settings \<and> feasible_solution huge_settings huge_solution"
  by (simp add: feasible_solution_def huge_settings_def huge_solution_def shape_def
      nonneg_def in_int32_def is_valid_capacity_def is_valid_module_total_def row_sums_def
      column_sums_def column_def wf_settings_def)

lemma mutate_type_example:
  "mutate_rockets_type_allocation scenario_settings example_solution (constant_rng 0)
     = (None, mixed_solution, (constant_rng 0)\<lparr>cursor := 2\<rparr>)"
  by (simp add: mutate_rockets_type_allocation_def py_randrange_def next_draw_def
      constant_rng_def scenario_settings_def example_solution_def mixed_solution_def)

text \<open>
  Claim C6. For every feasible Solution, \<^verbatim>\<open>__mutate_rockets_type_allocation\<close> returns
  without an exception, leaves \<open>module_allocation\<close> as it was, writes a value below
  \<open>num_rocket_types\<close> into one entry (of index below \<open>num_rockets\<close>) of
  \<open>rocket_type_allocation\<close>, and the Solution still passes both validators.
\<close>

theorem type_mutation_frame:
  assumes "wf_settings s" and "feasible_solution s solution"
  shows "\<exists>i v solution' g'.
           mutate_rockets_type_allocation s solution g = (None, solution', g')
         \<and> i < num_rockets s \<and> v < num_rocket_types s
         \<and> rocket_type_allocation solution' = (rocket_type_allocation solution)[i := v]
         \<and> module_allocation solution' = module_allocation solution
         \<and> is_valid_capacity solution' s \<and> is_valid_module_total solution' s
         \<and> feasible_solution s solution'"
proof -
  have r: "0 < num_rockets s" and t: "0 < num_rocket_types s"
    using assms(1) by (simp_all add: wf_settings_def)
  define i where "i = outcomes g (cursor g) mod num_rockets s"
  define g1 where "g1 = g\<lparr>cursor := Suc (cursor g)\<rparr>"
  define v where "v = outcomes g1 (cursor g1) mod num_rocket_types s"
  define g2 where "g2 = g1\<lparr>cursor := Suc (cursor g1)\<rparr>"
  define solution' where
    "solution' = solution\<lparr>rocket_type_allocation := (rocket_type_allocation solution)[i := v]\<rparr>"
  have ir: "i < num_rockets s" using r by (simp add: i_def)
  have vt: "v < num_rocket_types s" using t by (simp add: v_def)
  have len: "length (rocket_type_allocation solution) = num_rockets s"
    using assms(2) by (simp add: feasible_solution_def)
  have run: "mutate_rockets_type_allocation s solution g = (None, solution', g2)"
    using ir len
    by (simp add: mutate_rockets_type_allocation_def py_randrange_pos[OF r]
        py_randrange_pos[OF t] i_def[symmetric] g1_def[symmetric] v_def[symmetric]
        g2_def[symmetric] solution'_def)
  have types: "\<forall>t \<in> set (rocket_type_allocation solution'). t < num_rocket_types s"
    using assms(2) vt set_update_subset_insert[of "rocket_type_allocation solution" i v]
    by (auto simp: feasible_solution_def solution'_def)
  have feas: "feasible_solution s solution'"
    using assms(2) types
    by (simp add: feasible_solution_def solution'_def is_valid_capacity_def
        is_valid_module_total_def)
  show ?thesis
    using run ir vt feas by (auto simp: solution'_def feasible_solution_def)
qed

theorem type_mutation_frame_witness:
  "wf_settings scenario_settings \<and> feasible_solution scenario_settings example_solution
   \<and> mutate_rockets_type_allocation scenario_settings example_solution (constant_rng 0)
       = (None, mixed_solution, (constant_rng 0)\<lparr>cursor := 2\<rparr>)
   \<and> rocket_type_allocation mixed_solution = (rocket_type_allocation example_solution)[0 := 0]
   \<and> module_allocation mixed_solution = module_allocation example_solution
   \<and> is_valid_capacity mixed_solution scenario_settings
   \<and> is_valid_module_total mixed_solution scenario_settings"
proof -
  have wf: "wf_settings scenario_settings" using scenario_wf by simp
  from type_mutation_frame[OF wf example_feasible, of "constant_rng 0"]
  show ?thesis using wf example_feasible mutate_type_example
    by (auto simp: mixed_solution_def example_solution_def)
qed

lemma argwhere_positive_set:
  "i \<in> set (argwhere_positive v) \<longleftrightarrow> i < length v \<and> 0 < v ! i"
  by (auto simp: argwhere_positive_def)

lemma argwhere_positive_empty:
  "argwhere_positive v = [] \<longleftrightarrow> (\<forall>x \<in> set v. x \<le> 0)"
proof
  assume e: "argwhere_positive v = []"
  show "\<forall>x \<in> set v. x \<le> 0"
  proof
    fix x assume "x \<in> set v"
    then obtain i where i: "i < length v" "x = v ! i" by (auto simp: in_set_conv_nth)
    have "i \<notin> set (argwhere_positive v)" using e by simp
    then show "x \<le> 0" using i by (simp add: argwhere_positive_set)
  qed
next
  assume a: "\<forall>x \<in> set v. x \<le> 0"
  have "set (argwhere_positive v) = {}"
  proof (rule ccontr)
    assume "set (argwhere_positive v) \<noteq> {}"
    then obtain i where "i \<in> set (argwhere_positive v)" by fastforce
    then have "i < length v" "0 < v ! i" by (simp_all add: argwhere_positive_set)
    then show False using a nth_mem[of i v] by fastforce
  qed
  then show "argwhere_positive v = []" by simp
qed

lemma py_choice_empty:
  "py_choice [] g = (Inl (IndexError ''Cannot choose from an empty sequence''), g)"
  by (simp add: py_choice_def)

lemma py_choice_nonempty:
  "xs \<noteq> [] \<Longrightarrow> \<exists>x g'. py_choice xs g = (Inr x, g') \<and> x \<in> set xs"
  by (simp add: py_choice_def next_draw_def)

lemma py_randint_range:
  assumes "lo < np_add_one hi"
  shows "\<exists>v g'. py_randint lo hi g = (Inr v, g') \<and> lo \<le> v \<and> v < np_add_one hi"
proof -
  define r where "r = outcomes g (cursor g) mod nat (np_add_one hi - lo)"
  have "r < nat (np_add_one hi - lo)" using assms by (simp add: r_def)
  then have "int r < np_add_one hi - lo" by linarith
  moreover have "py_randint lo hi g = (Inr (lo + int r), g\<lparr>cursor := Suc (cursor g)\<rparr>)"
    using assms by (simp add: py_randint_def next_draw_def r_def Let_def)
  ultimately show ?thesis by simp
qed

text \<open>
  Claim C10. When no rocket has remaining capacity, or no rocket holds a unit of the
  module type that was drawn, \<^verbatim>\<open>__mutate_modules_allocation\<close> raises an exception
  (\<^verbatim>\<open>random.choice\<close> of an empty sequence) and the Solution is exactly as it was.
\<close>

theorem failing_module_mutation_leaves_solution:
  assumes "(\<forall>c \<in> set (row_sums (module_allocation solution)). rocket_capacity s \<le> c)
           \<or> (\<exists>j g1. py_randrange (num_module_types s) g = (Inr j, g1)
                  \<and> (\<forall>row \<in> set (module_allocation solution). row ! j \<le> 0))"
  shows "\<exists>e g'. mutate_modules_allocation s solution g = (Some e, solution, g')"
proof -
  define a where "a = module_allocation solution"
  define caps where "caps = map (\<lambda>c. rocket_capacity s - c) (row_sums a)"
  obtain r g1 where rr: "py_randrange (num_module_types s) g = (r, g1)"
    by (cases "py_randrange (num_module_types s) g")
  show ?thesis
  proof (cases r)
    case (Inl e)
    then show ?thesis using rr by (simp add: mutate_modules_allocation_def Let_def)
  next
    case (Inr j)
    obtain r2 g2 where c1: "py_choice (argwhere_positive caps) g1 = (r2, g2)"
      by (cases "py_choice (argwhere_positive caps) g1")
    show ?thesis
    proof (cases r2)
      case (Inl e)
      then show ?thesis using rr Inr c1
        by (simp add: mutate_modules_allocation_def Let_def a_def caps_def)
    next
      case to: (Inr to)
      have "argwhere_positive caps \<noteq> []"
      proof
        assume "argwhere_positive caps = []"
        then have "py_choice (argwhere_positive caps) g1
                     = (Inl (IndexError ''Cannot choose from an empty sequence''), g1)"
          by (simp add: py_choice_empty)
        then show False using c1 to by simp
      qed
      then have "\<exists>x \<in> set caps. 0 < x" by (auto simp: argwhere_positive_empty not_le)
      then have "\<not> (\<forall>c \<in> set (row_sums a). rocket_capacity s \<le> c)"
        by (fastforce simp: caps_def)
      then have none: "\<forall>row \<in> set a. row ! j \<le> 0"
        using assms rr Inr by (auto simp: a_def)
      show ?thesis
      proof (cases "\<exists>row \<in> set a. \<not> j < length row")
        case True
        then show ?thesis using rr Inr c1 to
          by (simp add: mutate_modules_allocation_def Let_def a_def caps_def)
      next
        case False
        have "argwhere_positive (column j a) = []"
          using none by (auto simp: argwhere_positive_empty column_def)
        then show ?thesis using rr Inr c1 to False
          by (simp add: mutate_modules_allocation_def Let_def a_def caps_def py_choice_empty)
      qed
    qed
  qed
qed

theorem failing_module_mutation_leaves_solution_witness:
  "row_sums (module_allocation packed_solution) = [5, 5]
   \<and> rocket_capacity packed_settings = 5
   \<and> mutate_modules_allocation packed_settings packed_solution (constant_rng 0)
       = (Some (IndexError ''Cannot choose from an empty sequence''), packed_solution,
          (constant_rng 0)\<lparr>cursor := 1\<rparr>)
   \<and> (\<exists>e g'. mutate_modules_allocation packed_settings packed_solution (constant_rng 0)
                 = (Some e, packed_solution, g'))"
proof -
  have rows: "row_sums (module_allocation packed_solution) = [5, 5]"
    and cap: "rocket_capacity packed_settings = 5"
    by (simp_all add: packed_solution_def packed_settings_def row_sums_def)
  have full: "\<forall>c \<in> set (row_sums (module_allocation packed_solution)).
                rocket_capacity packed_settings \<le> c"
    by (simp add: rows cap)
  then have "(\<forall>c \<in> set (row_sums (module_allocation packed_solution)).
                rocket_capacity packed_settings \<le> c)
           \<or> (\<exists>j g1. py_randrange (num_module_types packed_settings) (constant_rng 0) = (Inr j, g1)
                  \<and> (\<forall>row \<in> set (module_allocation packed_solution). row ! j \<le> 0))"
    by blast
  from failing_module_mutation_leaves_solution[OF this]
  have ex: "\<exists>e g'. mutate_modules_allocation packed_settings packed_solution (constant_rng 0)
                 = (Some e, packed_solution, g')" .
  have run: "mutate_modules_allocation packed_settings packed_solution (constant_rng 0)
       = (Some (IndexError ''Cannot choose from an empty sequence''), packed_solution,
          (constant_rng 0)\<lparr>cursor := 1\<rparr>)"
    by (simp add: mutate_modules_allocation_def py_randrange_def py_choice_def
        next_draw_def constant_rng_def packed_settings_def packed_solution_def row_sums_def
        argwhere_positive_def Let_def)
  show ?thesis using rows cap run ex by simp
qed

lemma transfer_distinct:
  assumes sh: "shape r m a" and nn: "nonneg a" and rng: "in_int32 a"
    and x: "x < r" and y: "y < r" and xy: "x \<noteq> y" and j: "j < m"
    and t0: "0 \<le> t" and tx: "t \<le> a ! x ! j"
    and small: "a ! x ! j + a ! y ! j < 2147483648"
    and a1: "a1 = a[x := (a ! x)[j := int32 (a ! x ! j - t)]]"
    and a2: "a2 = a1[y := (a1 ! y)[j := int32 (a1 ! y ! j + t)]]"
  shows "shape r m a2" and "nonneg a2" and "in_int32 a2"
    and "column_sums m a2 = column_sums m a"
    and "row_sums a2 = (row_sums a)[x := sum_list (a ! x) - t, y := sum_list (a ! y) + t]"
proof -
  have len: "length a = r" and rows: "\<And>i. i < r \<Longrightarrow> length (a ! i) = m"
    using sh by (auto simp: shape_def)
  have mem: "a ! x \<in> set a" "a ! y \<in> set a" using x y len by auto
  have axj: "0 \<le> a ! x ! j" "a ! x ! j < 2147483648"
    using nn rng mem(1) j rows[OF x] by (auto simp: nonneg_def in_int32_def)
  have ayj: "0 \<le> a ! y ! j" using nn mem(2) j rows[OF y] by (auto simp: nonneg_def)
  have id1: "int32 (a ! x ! j - t) = a ! x ! j - t"
    using t0 tx axj by (intro int32_id) auto
  have id2: "int32 (a ! y ! j + t) = a ! y ! j + t"
    using t0 tx ayj small by (intro int32_id) auto
  define rx where "rx = (a ! x)[j := a ! x ! j - t]"
  define ry where "ry = (a ! y)[j := a ! y ! j + t]"
  have "a1 ! y = a ! y" using xy a1 by simp
  then have a': "a2 = a[x := rx, y := ry]"
    using a1 a2 id1 id2 by (simp add: rx_def ry_def)
  have lrx: "length rx = m" by (simp add: rx_def rows[OF x])
  have lry: "length ry = m" by (simp add: ry_def rows[OF y])
  have sub: "set a2 \<subseteq> insert rx (insert ry (set a))"
    unfolding a' using set_update_subset_insert[of "a[x := rx]" y ry]
      set_update_subset_insert[of a x rx] by auto
  show "shape r m a2" using sub sh lrx lry by (auto simp: shape_def a')
  have rxs: "\<forall>v \<in> set rx. 0 \<le> v \<and> v < 2147483648"
    using set_update_subset_insert[of "a ! x" j "a ! x ! j - t"] nn rng mem(1) tx t0 axj
    by (auto simp: rx_def nonneg_def in_int32_def)
  have rys: "\<forall>v \<in> set ry. 0 \<le> v \<and> v < 2147483648"
    using set_update_subset_insert[of "a ! y" j "a ! y ! j + t"] nn rng mem(2) t0 tx ayj small
    by (auto simp: ry_def nonneg_def in_int32_def)
  show "nonneg a2" using sub nn rxs rys by (auto simp: nonneg_def)
  show "in_int32 a2"
  proof -
    have "\<forall>row \<in> set a2. \<forall>v \<in> set row. - 2147483648 \<le> v \<and> v < 2147483648"
    proof
      fix row assume "row \<in> set a2"
      then have "row = rx \<or> row = ry \<or> row \<in> set a" using sub by auto
      then show "\<forall>v \<in> set row. - 2147483648 \<le> v \<and> v < 2147483648"
        using rxs rys rng by (fastforce simp: in_int32_def)
    qed
    then show ?thesis by (simp add: in_int32_def)
  qed
  have "\<forall>k<m. sum_list (column k a2) = sum_list (column k a)"
  proof (intro allI impI)
    fix k assume km: "k < m"
    have "sum_list (column k a2) = sum_list (column k a)
            + (rx ! k - column k a ! x) + (ry ! k - column k a ! y)"
      unfolding a' column_update2
      using x y xy len by (intro sum_list_update2_int) (auto simp: column_def)
    moreover have "rx ! k - column k a ! x + (ry ! k - column k a ! y) = 0"
      using x y len km rows[OF x] rows[OF y] j
      by (cases "k = j") (auto simp: rx_def ry_def column_def)
    ultimately show "sum_list (column k a2) = sum_list (column k a)" by simp
  qed
  then show "column_sums m a2 = column_sums m a" by (simp add: column_sums_def)
  have "sum_list rx = sum_list (a ! x) - t"
    using j rows[OF x] by (simp add: rx_def sum_list_update_int)
  moreover have "sum_list ry = sum_list (a ! y) + t"
    using j rows[OF y] by (simp add: ry_def sum_list_update_int)
  ultimately show "row_sums a2 = (row_sums a)[x := sum_list (a ! x) - t, y := sum_list (a ! y) + t]"
    by (simp add: a' row_sums_def map_update)
qed

lemma transfer_same:
  assumes sh: "shape r m a" and nn: "nonneg a" and rng: "in_int32 a"
    and x: "x < r" and j: "j < m" and t0: "0 \<le> t" and tx: "t \<le> a ! x ! j"
    and a1: "a1 = a[x := (a ! x)[j := int32 (a ! x ! j - t)]]"
    and a2: "a2 = a1[x := (a1 ! x)[j := int32 (a1 ! x ! j + t)]]"
  shows "a2 = a"
proof -
  have len: "length a = r" and rows: "length (a ! x) = m"
    using sh x by (auto simp: shape_def)
  have mem: "a ! x \<in> set a" using x len by auto
  have axj: "0 \<le> a ! x ! j" "a ! x ! j < 2147483648"
    using nn rng mem j rows by (auto simp: nonneg_def in_int32_def)
  have id1: "int32 (a ! x ! j - t) = a ! x ! j - t"
    using t0 tx axj by (intro int32_id) auto
  have id2: "int32 (a ! x ! j) = a ! x ! j" using axj by (intro int32_id) auto
  have "a1 ! x = (a ! x)[j := a ! x ! j - t]" using a1 id1 x len by simp
  then have "a2 = a[x := (a ! x)[j := a ! x ! j]]"
    using a1 a2 id2 j rows by simp
  then show ?thesis by simp
qed

lemma feasible_solution_exact:
  "feasible_solution s solution \<Longrightarrow> exact s (module_allocation solution)"
  by (simp add: feasible_solution_def exact_def is_valid_module_total_def)

text \<open>
  Where every amount is below the largest int32, neither the bound of
  \<^verbatim>\<open>random.randint\<close> nor a store wraps: on a feasible Solution on which some rocket has
  remaining capacity and some rocket holds a unit of the module type that was drawn,
  \<^verbatim>\<open>__mutate_modules_allocation\<close> returns without an exception, every column sum is
  what it was, and no row sum exceeds the capacity.
\<close>

lemma module_mutation_preserves_invariants:
  assumes wf: "wf_settings s" and below: "below_int32_max s"
    and fs: "feasible_solution s solution"
    and slack: "\<exists>c \<in> set (row_sums (module_allocation solution)). c < rocket_capacity s"
    and holder: "\<exists>j g1. py_randrange (num_module_types s) g = (Inr j, g1)
                    \<and> (\<exists>row \<in> set (module_allocation solution). 0 < row ! j)"
  shows "\<exists>solution' g'. mutate_modules_allocation s solution g = (None, solution', g')
           \<and> column_sums (num_module_types s) (module_allocation solution')
               = column_sums (num_module_types s) (module_allocation solution)
           \<and> is_valid_capacity solution' s
           \<and> feasible_solution s solution'"
proof -
  define a where "a = module_allocation solution"
  define caps where "caps = map (\<lambda>c. rocket_capacity s - c) (row_sums a)"
  have sh: "shape (num_rockets s) (num_module_types s) a" and nn: "nonneg a"
    and rng: "in_int32 a" and vc: "is_valid_capacity solution s"
    and cs: "column_sums (num_module_types s) a = module_amounts s"
    using fs by (auto simp: feasible_solution_def a_def is_valid_module_total_def)
  have len: "length a = num_rockets s"
    and rows: "\<And>i. i < num_rockets s \<Longrightarrow> length (a ! i) = num_module_types s"
    using sh by (auto simp: shape_def)
  have lcaps: "length caps = num_rockets s" by (simp add: caps_def row_sums_def len)
  have capsn: "\<And>i. i < num_rockets s \<Longrightarrow> caps ! i = rocket_capacity s - sum_list (a ! i)"
    by (simp add: caps_def row_sums_def len)
  have m: "0 < num_module_types s" using wf by (simp add: wf_settings_def)
  obtain j g1 where j: "py_randrange (num_module_types s) g = (Inr j, g1)"
    "\<exists>row \<in> set a. 0 < row ! j" using holder by (auto simp: a_def)
  have jm: "j < num_module_types s" using j(1) m by (auto simp: py_randrange_pos)
  have "\<exists>x \<in> set caps. 0 < x" using slack by (auto simp: caps_def a_def)
  then have "argwhere_positive caps \<noteq> []" by (auto simp: argwhere_positive_empty not_le)
  then obtain dst g2 where dst: "py_choice (argwhere_positive caps) g1 = (Inr dst, g2)"
    "dst \<in> set (argwhere_positive caps)" using py_choice_nonempty by blast
  have tor: "dst < num_rockets s" and tos: "0 < caps ! dst"
    using dst(2) lcaps by (simp_all add: argwhere_positive_set)
  have colok: "\<not> (\<exists>row \<in> set a. \<not> j < length row)" using sh jm by (auto simp: shape_def)
  have "\<exists>x \<in> set (column j a). 0 < x" using j(2) by (auto simp: column_def)
  then have "argwhere_positive (column j a) \<noteq> []"
    by (auto simp: argwhere_positive_empty not_le)
  then obtain src g3 where src:
    "py_choice (argwhere_positive (column j a)) g2 = (Inr src, g3)"
    "src \<in> set (argwhere_positive (column j a))" using py_choice_nonempty by blast
  have fr: "src < num_rockets s" and fpos: "0 < a ! src ! j"
    using src(2) len by (auto simp: argwhere_positive_set column_def)
  have fits: "fits_int32 s" using below by (auto simp: fits_int32_def below_int32_max_def)
  have coln: "\<forall>v \<in> set (column j a). 0 \<le> v" using nonneg_column[OF sh nn jm] .
  have "src < length (column j a)" using fr len by (simp add: column_def)
  then have "column j a ! src \<le> sum_list (column j a)"
    using coln by (intro elem_le_sum_list_int) simp_all
  also have "sum_list (column j a) = module_amounts s ! j"
    using column_sums_nth[OF jm, of a] cs by simp
  also have "\<dots> < 2147483647"
    using below wf jm by (simp add: below_int32_max_def wf_settings_def)
  finally have fmax: "a ! src ! j < 2147483647" using fr len by (simp add: column_def)
  define mx where "mx = (if caps ! dst < a ! src ! j then NpInt64 (caps ! dst)
                         else NpInt32 (a ! src ! j))"
  have stop: "np_add_one mx = min (a ! src ! j) (caps ! dst) + 1"
  proof (cases "caps ! dst < a ! src ! j")
    case True
    have "int64 (caps ! dst + 1) = caps ! dst + 1"
      using True tos fmax by (intro int64_id) simp_all
    then show ?thesis using True by (simp add: mx_def)
  next
    case False
    have "int32 (a ! src ! j + 1) = a ! src ! j + 1"
      using fpos fmax by (intro int32_id) simp_all
    then show ?thesis using False by (simp add: mx_def)
  qed
  have "1 < np_add_one mx" using fpos tos by (simp add: stop)
  then obtain t g4 where t: "py_randint 1 mx g3 = (Inr t, g4)" "1 \<le> t" "t < np_add_one mx"
    using py_randint_range by blast
  have t0: "0 \<le> t" and tf: "t \<le> a ! src ! j" and tc: "t \<le> caps ! dst"
    using t(2,3) by (simp_all add: stop)
  define a1 where "a1 = a[src := (a ! src)[j := int32 (a ! src ! j - t)]]"
  define a2 where "a2 = a1[dst := (a1 ! dst)[j := int32 (a1 ! dst ! j + t)]]"
  define solution' where "solution' = solution\<lparr>module_allocation := a2\<rparr>"
  have run: "mutate_modules_allocation s solution g = (None, solution', g4)"
    using j(1) dst(1) colok src(1) t(1)
    by (simp add: mutate_modules_allocation_def Let_def a_def[symmetric] caps_def[symmetric]
        mx_def[symmetric] a1_def[symmetric] a2_def[symmetric] solution'_def
        split del: if_split cong: if_cong)
  have keep: "shape (num_rockets s) (num_module_types s) a2 \<and> nonneg a2 \<and> in_int32 a2
       \<and> column_sums (num_module_types s) a2 = column_sums (num_module_types s) a
       \<and> (\<forall>c \<in> set (row_sums a2). c \<le> rocket_capacity s)"
  proof (cases "src = dst")
    case True
    have "a2 = a"
      using transfer_same[OF sh nn rng fr jm t0 tf a1_def] a2_def True by simp
    then show ?thesis using sh nn rng vc by (simp add: is_valid_capacity_def a_def)
  next
    case False
    have "column j a ! src + column j a ! dst \<le> sum_list (column j a)"
      using fr tor False len by (intro two_le_sum_list[OF coln]) (auto simp: column_def)
    also have "sum_list (column j a) = module_amounts s ! j"
      using column_sums_nth[OF jm, of a] cs by simp
    also have "\<dots> < 2147483648"
      using fits wf jm by (simp add: fits_int32_def wf_settings_def)
    finally have small: "a ! src ! j + a ! dst ! j < 2147483648"
      using fr tor len by (simp add: column_def)
    note tr = transfer_distinct[OF sh nn rng fr tor False jm t0 tf small a1_def a2_def]
    have "\<forall>c \<in> set (row_sums a2). c \<le> rocket_capacity s"
    proof
      fix c assume "c \<in> set (row_sums a2)"
      then have "c = sum_list (a ! src) - t \<or> c = sum_list (a ! dst) + t \<or> c \<in> set (row_sums a)"
        unfolding tr(5)
        using set_update_subset_insert[of "(row_sums a)[src := sum_list (a ! src) - t]" dst]
          set_update_subset_insert[of "row_sums a" "src"] by auto
      moreover have "sum_list (a ! src) \<le> rocket_capacity s"
        using vc fr len by (auto simp: is_valid_capacity_def a_def row_sums_def)
      moreover have "sum_list (a ! dst) + t \<le> rocket_capacity s"
        using tc capsn[OF tor] by simp
      ultimately show "c \<le> rocket_capacity s"
        using t0 vc by (auto simp: is_valid_capacity_def a_def)
    qed
    then show ?thesis using tr(1,2,3,4) by simp
  qed
  have fs': "feasible_solution s solution'"
    using fs keep cs
    by (simp add: feasible_solution_def solution'_def is_valid_capacity_def
        is_valid_module_total_def)
  show ?thesis
    using run keep fs' by (auto simp: solution'_def a_def is_valid_capacity_def)
qed

lemma brim_feasible: "wf_settings brim_settings \<and> feasible_solution brim_settings brim_solution"
  by (simp add: feasible_solution_def brim_settings_def brim_solution_def shape_def
      nonneg_def in_int32_def is_valid_capacity_def is_valid_module_total_def row_sums_def
      column_sums_def column_def wf_settings_def)

text \<open>
  At an amount of \<open>2^31 - 1\<close> held by one rocket, the bound of \<^verbatim>\<open>random.randint\<close> is
  the int32 entry \<open>2^31 - 1\<close>; one more is \<open>-2^31\<close> in int32, and the mutation raises
  ValueError.
\<close>

lemma module_mutation_randint_overflow:
  "mutate_modules_allocation brim_settings brim_solution (list_rng [0, 1, 0, 0])
     = (Some (ValueError ''empty range for randrange()''), brim_solution,
        (list_rng [0, 1, 0, 0])\<lparr>cursor := 3\<rparr>)"
  by (simp add: mutate_modules_allocation_def py_randrange_def py_choice_def py_randint_def
      next_draw_def list_rng_def brim_settings_def brim_solution_def row_sums_def
      argwhere_positive_def column_def int32_def Let_def)

text \<open>The random generator itself returns \<open>huge_solution\<close>, for a suitable draw.\<close>

lemma huge_solution_generated:
  "generate_random_solution huge_settings (list_rng [2147483647])
     = Some (Inr huge_solution, (list_rng [2147483647])\<lparr>cursor := 1\<rparr>)"
  by (simp add: generate_random_solution_def generate_random_rockets_type_allocation_def
      np_randint_def generate_random_modules_allocation_def huge_settings_def
      huge_solution_def np_multinomial_def set_column_def int32_def int64_def repair.simps
      any_over_capacity_def row_sums_def is_valid_capacity_def is_valid_module_total_def
      column_sums_def column_def next_draw_def list_rng_def numeral_2_eq_2 Let_def)

text \<open>
  Claim C5 does not hold of the code. \<open>huge_solution\<close> is a feasible Solution (rows of
  \<open>2^31 - 1\<close> and 1 for a capacity of \<open>2^31\<close>, column sum the amount \<open>2^31\<close>); the
  first rocket has room for one unit and the second holds one. The mutation moves that
  unit: it is subtracted from the second entry, and the first entry plus one is stored
  in the int32 matrix as \<open>-2^31\<close>. The column sum goes from \<open>2^31\<close> to \<open>-2^31\<close>.
\<close>

theorem module_mutation_int32_overflow:
  "module_allocation huge_solution = [[2147483647], [1]]
   \<and> rocket_capacity huge_settings = 2147483648
   \<and> module_amounts huge_settings = [2147483648]
   \<and> column_sums (num_module_types huge_settings) (module_allocation huge_solution)
       = [2147483648]
   \<and> mutate_modules_allocation huge_settings huge_solution (list_rng [0, 0, 1, 0])
       = (None, huge_solution\<lparr>module_allocation := [[- 2147483648], [0]]\<rparr>,
          (list_rng [0, 0, 1, 0])\<lparr>cursor := 4\<rparr>)
   \<and> column_sums (num_module_types huge_settings) [[- 2147483648], [0]] = [- 2147483648]"
proof -
  have run: "mutate_modules_allocation huge_settings huge_solution (list_rng [0, 0, 1, 0])
       = (None, huge_solution\<lparr>module_allocation := [[- 2147483648], [0]]\<rparr>,
          (list_rng [0, 0, 1, 0])\<lparr>cursor := 4\<rparr>)"
    by (simp add: mutate_modules_allocation_def py_randrange_def py_choice_def py_randint_def
        next_draw_def list_rng_def huge_settings_def huge_solution_def row_sums_def
        argwhere_positive_def column_def int32_def Let_def)
  have cols: "column_sums (num_module_types huge_settings) (module_allocation huge_solution)
       = [2147483648]"
    "column_sums (num_module_types huge_settings) [[- 2147483648], [0]] = [- 2147483648]"
    by (simp_all add: column_sums_def column_def huge_settings_def huge_solution_def)
  have facts: "module_allocation huge_solution = [[2147483647], [1]]"
    "rocket_capacity huge_settings = 2147483648" "module_amounts huge_settings = [2147483648]"
    by (simp_all add: huge_settings_def huge_solution_def)
  show ?thesis using run cols facts by simp
qed

section \<open>Neighbourhoods and generations: claims C4, C3 and C2\<close>

lemma first_cost_error_None:
  "first_cost_error s xs = None \<Longrightarrow> \<forall>x \<in> set xs. calculate_cost x s = Inr (cost_key s x)"
  by (induction xs) (auto simp: cost_key_def split: sum.splits)

lemma sorted_by_cost_Inr:
  assumes "sorted_by_cost s xs = Inr ys"
  shows "ys = sort_key (cost_key s) xs"
    and "\<forall>x \<in> set xs. calculate_cost x s = Inr (cost_key s x)"
  using assms first_cost_error_None[of s xs]
  by (auto simp: sorted_by_cost_def split: option.splits)

lemma hd_sort_key_least:
  fixes f :: "'a \<Rightarrow> real"
  assumes "xs \<noteq> []"
  shows "hd (sort_key f xs) \<in> set xs" and "\<forall>x \<in> set xs. f (hd (sort_key f xs)) \<le> f x"
proof -
  define ys where "ys = sort_key f xs"
  have set: "set ys = set xs" and srt: "sorted (map f ys)"
    by (simp_all add: ys_def)
  have "ys \<noteq> []" using assms set by auto
  then obtain y ys' where y: "ys = y # ys'" by (cases ys) auto
  show "hd (sort_key f xs) \<in> set xs" using y set by (auto simp: ys_def[symmetric])
  have "\<forall>z \<in> set ys'. f y \<le> f z" using srt y by simp
  then have "\<forall>x \<in> set ys. f y \<le> f x" using y by auto
  then have "\<forall>x \<in> set xs. f y \<le> f x" using set by simp
  then show "\<forall>x \<in> set xs. f (hd (sort_key f xs)) \<le> f x"
    using y by (simp add: ys_def[symmetric])
qed

lemma find_best_neighbour_cost:
  assumes "find_best_neighbour b solution k g = (Inr best, g')"
  shows "\<exists>c c'. calculate_cost solution (settings b) = Inr c
               \<and> calculate_cost best (settings b) = Inr c' \<and> c' \<le> c"
proof -
  obtain ns g1 where ns: "mutate_neighbours b (replicate k solution) g = (Inr ns, g1)"
    using assms by (auto simp: find_best_neighbour_def split: prod.splits sum.splits)
  obtain ys where ys: "sorted_by_cost (settings b) (ns @ [solution]) = Inr ys" "best = hd ys"
    using assms ns by (auto simp: find_best_neighbour_def split: sum.splits)
  have ys_eq: "ys = sort_key (cost_key (settings b)) (ns @ [solution])"
    and costs: "\<forall>x \<in> set (ns @ [solution]).
                  calculate_cost x (settings b) = Inr (cost_key (settings b) x)"
    using sorted_by_cost_Inr[OF ys(1)] by simp_all
  have ne: "ns @ [solution] \<noteq> []" by simp
  have mem: "best \<in> set (ns @ [solution])"
    using hd_sort_key_least(1)[OF ne, of "cost_key (settings b)"] ys(2) ys_eq by simp
  have "cost_key (settings b) best \<le> cost_key (settings b) solution"
    using hd_sort_key_least(2)[OF ne, of "cost_key (settings b)"] ys(2) ys_eq by simp
  moreover have "calculate_cost solution (settings b) = Inr (cost_key (settings b) solution)"
    using costs by simp
  moreover have "calculate_cost best (settings b) = Inr (cost_key (settings b) best)"
    using costs mem by blast
  ultimately show ?thesis by blast
qed

lemma exploit_sites_length:
  "exploit_sites b k is pop g = (None, pop', g') \<Longrightarrow>
     length pop' = length pop \<and> (\<forall>i \<in> set is. i < length pop)"
proof (induction "is" arbitrary: pop g)
  case Nil
  then show ?case by simp
next
  case (Cons i "is")
  from Cons.prems have il: "i < length pop" by (auto split: if_splits)
  then obtain best g1 where s: "find_best_neighbour b (pop ! i) k g = (Inr best, g1)"
    "exploit_sites b k is (pop[i := best]) g1 = (None, pop', g')"
    using Cons.prems by (auto split: prod.splits sum.splits)
  from Cons.IH[OF s(2)] il show ?case by simp
qed

lemma exploit_sites_untouched:
  "exploit_sites b k is pop g = (None, pop', g') \<Longrightarrow> j \<notin> set is \<Longrightarrow> pop' ! j = pop ! j"
proof (induction "is" arbitrary: pop g)
  case Nil
  then show ?case by simp
next
  case (Cons i "is")
  from Cons.prems have il: "i < length pop" by (auto split: if_splits)
  then obtain best g1 where s: "find_best_neighbour b (pop ! i) k g = (Inr best, g1)"
    "exploit_sites b k is (pop[i := best]) g1 = (None, pop', g')"
    using Cons.prems by (auto split: prod.splits sum.splits)
  have "pop' ! j = (pop[i := best]) ! j" using Cons.IH[OF s(2)] Cons.prems(2) by simp
  then show ?case using Cons.prems(2) by simp
qed

lemma exploit_sites_first:
  assumes "exploit_sites b k (i # is) pop g = (None, pop', g')" and "i \<notin> set is"
  shows "\<exists>c c'. calculate_cost (pop ! i) (settings b) = Inr c
               \<and> calculate_cost (pop' ! i) (settings b) = Inr c' \<and> c' \<le> c"
proof -
  from assms(1) have il: "i < length pop" by (auto split: if_splits)
  then obtain best g1 where s: "find_best_neighbour b (pop ! i) k g = (Inr best, g1)"
    "exploit_sites b k is (pop[i := best]) g1 = (None, pop', g')"
    using assms(1) by (auto split: prod.splits sum.splits)
  have "pop' ! i = (pop[i := best]) ! i" using exploit_sites_untouched[OF s(2) assms(2)] .
  then have "pop' ! i = best" using il by simp
  then show ?thesis using find_best_neighbour_cost[OF s(1)] by simp
qed

lemma replace_scouts_untouched:
  "replace_scouts s is pop g = Some (None, pop', g') \<Longrightarrow>
     length pop' = length pop \<and> (\<forall>j. j \<notin> set is \<longrightarrow> pop' ! j = pop ! j)"
proof (induction "is" arbitrary: pop g)
  case Nil
  then show ?case by simp
next
  case (Cons i "is")
  obtain solution g1 where s: "generate_random_solution s g = Some (Inr solution, g1)"
    "replace_scouts s is (pop[i := solution]) g1 = Some (None, pop', g')"
    using Cons.prems by (auto split: option.splits prod.splits sum.splits)
  from Cons.IH[OF s(2)] show ?case by auto
qed

lemma simulate_population_first:
  assumes run: "simulate_population b w = Some (None, b', w')"
    and sites: "0 < elite_sites b + normal_sites b"
  shows "population b \<noteq> [] \<and> length (population b') = length (population b)
       \<and> (\<exists>c'. calculate_cost (population b' ! 0) (settings b) = Inr c'
            \<and> (\<forall>x \<in> set (population b). \<exists>c. calculate_cost x (settings b) = Inr c \<and> c' \<le> c))"
proof -
  obtain pop0 where p0: "sorted_by_cost (settings b) (population b) = Inr pop0"
    using run by (auto simp: simulate_population_def split: sum.splits)
  obtain pop1 g1 where p1:
    "exploit_sites b (elite_site_size b) [0..<elite_sites b] pop0 (py_random w) = (None, pop1, g1)"
    using run p0 by (auto simp: simulate_population_def split: prod.splits option.splits)
  obtain pop2 g2 where p2:
    "exploit_sites b (normal_site_size b) [elite_sites b..<elite_sites b + normal_sites b] pop1 g1
       = (None, pop2, g2)"
    using run p0 p1 by (auto simp: simulate_population_def split: prod.splits option.splits)
  obtain pop3 g3 where p3:
    "replace_scouts (settings b) [elite_sites b + normal_sites b..<length pop2] pop2 (np_random w)
       = Some (None, pop3, g3)" "population b' = pop3"
    using run p0 p1 p2 by (auto simp: simulate_population_def split: prod.splits option.splits)
  have pop0_eq: "pop0 = sort_key (cost_key (settings b)) (population b)"
    and costs: "\<forall>x \<in> set (population b).
                  calculate_cost x (settings b) = Inr (cost_key (settings b) x)"
    using sorted_by_cost_Inr[OF p0] by simp_all
  have l1: "length pop1 = length pop0" and i1: "\<forall>i \<in> set [0..<elite_sites b]. i < length pop0"
    using exploit_sites_length[OF p1] by simp_all
  have l2: "length pop2 = length pop1"
    and i2: "\<forall>i \<in> set [elite_sites b..<elite_sites b + normal_sites b]. i < length pop1"
    using exploit_sites_length[OF p2] by simp_all
  have l3: "length pop3 = length pop2"
    and u3: "\<And>j. j \<notin> set [elite_sites b + normal_sites b..<length pop2] \<Longrightarrow> pop3 ! j = pop2 ! j"
    using replace_scouts_untouched[OF p3(1)] by simp_all
  have l0: "length pop0 = length (population b)" by (simp add: pop0_eq)
  have first: "0 < length pop0 \<and> (\<exists>c c'. calculate_cost (pop0 ! 0) (settings b) = Inr c
               \<and> calculate_cost (pop2 ! 0) (settings b) = Inr c' \<and> c' \<le> c)"
  proof (cases "0 < elite_sites b")
    case True
    then have up: "[0..<elite_sites b] = 0 # [Suc 0..<elite_sites b]" by (simp add: upt_conv_Cons)
    have n0: "0 \<notin> set [Suc 0..<elite_sites b]" by simp
    have "0 \<notin> set [elite_sites b..<elite_sites b + normal_sites b]" using True by simp
    then have "pop2 ! 0 = pop1 ! 0" by (rule exploit_sites_untouched[OF p2])
    moreover have "0 < length pop0" using i1 True by force
    ultimately show ?thesis using exploit_sites_first[OF p1[unfolded up] n0] by simp
  next
    case False
    then have e0: "elite_sites b = 0" by simp
    then have n: "0 < normal_sites b" using sites by simp
    have pop1: "pop1 = pop0" using p1 e0 by simp
    have up: "[elite_sites b..<elite_sites b + normal_sites b] = 0 # [Suc 0..<normal_sites b]"
      using e0 n by (simp add: upt_conv_Cons)
    have n0: "0 \<notin> set [Suc 0..<normal_sites b]" by simp
    have "0 < length pop0" using i2 e0 n pop1 by force
    then show ?thesis using exploit_sites_first[OF p2[unfolded up] n0] pop1 by simp
  qed
  then have ne: "population b \<noteq> []" using l0 by auto
  have "0 \<notin> set [elite_sites b + normal_sites b..<length pop2]" using sites by auto
  then have "pop3 ! 0 = pop2 ! 0" by (rule u3)
  moreover have "pop0 ! 0 = hd pop0" using first by (simp add: hd_conv_nth)
  ultimately obtain c c' where c:
    "calculate_cost (hd pop0) (settings b) = Inr c"
    "calculate_cost (pop3 ! 0) (settings b) = Inr c'" "c' \<le> c"
    using first by auto
  have hdmem: "hd pop0 \<in> set (population b)"
    and least: "\<forall>x \<in> set (population b).
               cost_key (settings b) (hd pop0) \<le> cost_key (settings b) x"
    using hd_sort_key_least[OF ne, of "cost_key (settings b)"] pop0_eq by simp_all
  have "c = cost_key (settings b) (hd pop0)" using c(1) costs hdmem by simp
  then have "\<forall>x \<in> set (population b). \<exists>d. calculate_cost x (settings b) = Inr d \<and> c' \<le> d"
    using least costs c(3) by fastforce
  then show ?thesis using ne l0 l1 l2 l3 p3(2) c(2) by simp
qed

lemmas eval_defs = scenario_settings_def example_solution_def cheap_solution_def
  scout_solution_def calculate_cost_def cost_key_def

lemma cost_cheap: "calculate_cost cheap_solution scenario_settings = Inr 2"
  by (simp add: eval_defs)

lemma cost_example: "calculate_cost example_solution scenario_settings = Inr 200"
  by (simp add: eval_defs)

lemma cost_scout: "calculate_cost scout_solution scenario_settings = Inr 2"
  by (simp add: eval_defs)

lemma cost_mixed: "calculate_cost mixed_solution scenario_settings = Inr 101"
  by (simp add: eval_defs mixed_solution_def)

lemma gen_scenario:
  "generate_random_solution scenario_settings g =
     Some (Inr \<lparr>rocket_type_allocation =
                  [outcomes g (cursor g) mod 2, outcomes g (Suc (cursor g)) mod 2],
                module_allocation =
                  [[int (outcomes g (Suc (Suc (cursor g))) mod 5)],
                   [4 - int (outcomes g (Suc (Suc (cursor g))) mod 5)]]\<rparr>,
           g\<lparr>cursor := cursor g + 3\<rparr>)"
proof -
  define x where "x = int (outcomes g (Suc (Suc (cursor g))) mod 5)"
  have x: "0 \<le> x" "x \<le> 4" by (simp_all add: x_def)
  have i1: "int32 x = x" using x by (intro int32_id) auto
  have i2: "int32 (4 - x) = 4 - x" using x by (intro int32_id) auto
  have no: "\<not> any_over_capacity scenario_settings [[x], [4 - x]]"
    using x by (simp add: any_over_capacity_def row_sums_def scenario_settings_def)
  show ?thesis
    using x no
    by (simp add: generate_random_solution_def generate_random_rockets_type_allocation_def
      np_randint_def draws_def generate_random_modules_allocation_def
      np_multinomial_def set_column_def repair.simps
      is_valid_capacity_def is_valid_module_total_def column_sums_def column_def
      numeral_2_eq_2 next_draw_def Let_def i1 i2 x_def[symmetric] row_sums_def
      scenario_settings_def upt_rec int64_def)
qed

lemma mutate_type_cheap:
  "mutate_rockets_type_allocation scenario_settings cheap_solution (constant_rng 0)
     = (None, cheap_solution, (constant_rng 0)\<lparr>cursor := 2\<rparr>)"
  by (simp add: mutate_rockets_type_allocation_def py_randrange_def next_draw_def
      constant_rng_def scenario_settings_def cheap_solution_def)

lemma best_neighbour_example:
  "find_best_neighbour example_solver example_solution 1 (constant_rng 0)
     = (Inr mixed_solution, (constant_rng 0)\<lparr>cursor := 2\<rparr>)"
  by (simp add: find_best_neighbour_def mutate_solution_def example_solver_def
      mutate_type_example sorted_by_cost_def cost_mixed cost_example cost_key_def)

lemma best_neighbour_cheap:
  "find_best_neighbour example_solver cheap_solution 1 (constant_rng 0)
     = (Inr cheap_solution, (constant_rng 0)\<lparr>cursor := 2\<rparr>)"
  by (simp add: find_best_neighbour_def mutate_solution_def example_solver_def
      mutate_type_cheap sorted_by_cost_def cost_cheap cost_key_def)

lemma gen_constant_0:
  "generate_random_solution scenario_settings (constant_rng 0)
     = Some (Inr scout_solution, (constant_rng 0)\<lparr>cursor := 3\<rparr>)"
  by (simp add: gen_scenario constant_rng_def scout_solution_def)

lemma gen_constant_1:
  "generate_random_solution scenario_settings (constant_rng 11)
     = Some (Inr example_solution, (constant_rng 11)\<lparr>cursor := 3\<rparr>)"
  by (simp add: gen_scenario constant_rng_def example_solution_def)

lemma simulate_example:
  "simulate_population example_solver (start_world (constant_rng 0) (constant_rng 0))
     = Some (None, example_solver\<lparr>population := [cheap_solution, scout_solution]\<rparr>,
             start_world ((constant_rng 0)\<lparr>cursor := 3\<rparr>) ((constant_rng 0)\<lparr>cursor := 2\<rparr>))"
proof -
  have s: "sorted_by_cost scenario_settings [example_solution, cheap_solution]
             = Inr [cheap_solution, example_solution]"
    by (simp add: sorted_by_cost_def cost_cheap cost_example cost_key_def)
  have b: "find_best_neighbour example_solver cheap_solution (Suc 0) (constant_rng 0)
     = (Inr cheap_solution, (constant_rng 0)\<lparr>cursor := 2\<rparr>)"
    using best_neighbour_cheap by simp
  have se: "settings example_solver = scenario_settings" "population example_solver
     = [example_solution, cheap_solution]" "elite_sites example_solver = 1"
    "normal_sites example_solver = 0" "elite_site_size example_solver = 1"
    by (simp_all add: example_solver_def)
  show ?thesis
    by (simp add: simulate_population_def se s b start_world_def gen_constant_0 upt_rec)
qed

lemma simulate_scout:
  "simulate_population scout_solver (start_world (constant_rng 11) (constant_rng 0))
     = Some (None, scout_solver\<lparr>population := [example_solution]\<rparr>,
             start_world ((constant_rng 11)\<lparr>cursor := 3\<rparr>) (constant_rng 0))"
proof -
  have s: "sorted_by_cost scenario_settings [cheap_solution] = Inr [cheap_solution]"
    by (simp add: sorted_by_cost_def cost_cheap)
  have se: "settings scout_solver = scenario_settings" "population scout_solver
     = [cheap_solution]" "elite_sites scout_solver = 0"
    "normal_sites scout_solver = 0"
    by (simp_all add: scout_solver_def)
  show ?thesis
    by (simp add: simulate_population_def se s start_world_def gen_constant_1 upt_rec)
qed

text \<open>
  Claim C4. For every Solution and every number \<open>k\<close> of neighbours, when
  \<^verbatim>\<open>__find_best_neighbour\<close> returns (no mutation raised), the costs of the Solution it
  was given and of the one it returns are both defined, and the cost of the returned
  Solution is at most the cost of the given one.
\<close>

theorem best_neighbour_never_worse:
  assumes "find_best_neighbour b solution k g = (Inr best, g')"
  shows "\<exists>c c'. calculate_cost solution (settings b) = Inr c
           \<and> calculate_cost best (settings b) = Inr c' \<and> c' \<le> c"
  using find_best_neighbour_cost[OF assms] .

theorem best_neighbour_never_worse_witness:
  "find_best_neighbour example_solver example_solution 1 (constant_rng 0)
     = (Inr mixed_solution, (constant_rng 0)\<lparr>cursor := 2\<rparr>)
   \<and> calculate_cost example_solution (settings example_solver) = Inr 200
   \<and> calculate_cost mixed_solution (settings example_solver) = Inr 101
   \<and> (\<exists>c c'. calculate_cost example_solution (settings example_solver) = Inr c
           \<and> calculate_cost mixed_solution (settings example_solver) = Inr c' \<and> c' \<le> c)"
proof -
  have se: "settings example_solver = scenario_settings" by (simp add: example_solver_def)
  show ?thesis
    using best_neighbour_never_worse[OF best_neighbour_example] best_neighbour_example
    by (simp add: se cost_example cost_mixed)
qed

text \<open>
  Claim C3, as the code has it. When the solver has at least one elite or normal site
  and \<^verbatim>\<open>simulate_population\<close> returns, some Solution of the new population costs at
  most what every Solution of the old population costs: the best cost has not increased.
\<close>

theorem best_cost_non_increasing:
  assumes "simulate_population b w = Some (None, b', w')"
    and "0 < elite_sites b + normal_sites b"
  shows "\<exists>y \<in> set (population b'). \<exists>c'. calculate_cost y (settings b) = Inr c'
           \<and> (\<forall>x \<in> set (population b). \<exists>c. calculate_cost x (settings b) = Inr c \<and> c' \<le> c)"
proof -
  from simulate_population_first[OF assms]
  have ne: "population b \<noteq> []" and len: "length (population b') = length (population b)"
    and c: "\<exists>c'. calculate_cost (population b' ! 0) (settings b) = Inr c'
            \<and> (\<forall>x \<in> set (population b). \<exists>c. calculate_cost x (settings b) = Inr c \<and> c' \<le> c)"
    by simp_all
  have "population b' ! 0 \<in> set (population b')" using ne len by (intro nth_mem) simp
  then show ?thesis using c by blast
qed

theorem best_cost_non_increasing_witness:
  "simulate_population example_solver (start_world (constant_rng 0) (constant_rng 0))
     = Some (None, example_solver\<lparr>population := [cheap_solution, scout_solution]\<rparr>,
             start_world ((constant_rng 0)\<lparr>cursor := 3\<rparr>) ((constant_rng 0)\<lparr>cursor := 2\<rparr>))
   \<and> 0 < elite_sites example_solver + normal_sites example_solver
   \<and> (\<exists>y \<in> set [cheap_solution, scout_solution].
        \<exists>c'. calculate_cost y (settings example_solver) = Inr c'
           \<and> (\<forall>x \<in> set (population example_solver).
                 \<exists>c. calculate_cost x (settings example_solver) = Inr c \<and> c' \<le> c))"
proof -
  have sites: "0 < elite_sites example_solver + normal_sites example_solver"
    by (simp add: example_solver_def)
  show ?thesis
    using best_cost_non_increasing[OF simulate_example sites] simulate_example sites by simp
qed

text \<open>
  Claim C3 as stated fails for a solver with no elite and no normal site: every
  individual is replaced by a random one. A population whose only Solution is feasible
  and costs 2 becomes one whose only Solution costs 200.
\<close>

theorem best_cost_counterexample:
  "elite_sites scout_solver + normal_sites scout_solver = 0
   \<and> population scout_solver = [cheap_solution]
   \<and> feasible_solution (settings scout_solver) cheap_solution
   \<and> simulate_population scout_solver (start_world (constant_rng 11) (constant_rng 0))
     = Some (None, scout_solver\<lparr>population := [example_solution]\<rparr>,
             start_world ((constant_rng 11)\<lparr>cursor := 3\<rparr>) (constant_rng 0))
   \<and> calculate_cost cheap_solution (settings scout_solver) = Inr 2
   \<and> calculate_cost example_solution (settings scout_solver) = Inr 200"
proof -
  have se: "settings scout_solver = scenario_settings" "elite_sites scout_solver = 0"
    "normal_sites scout_solver = 0" "population scout_solver = [cheap_solution]"
    by (simp_all add: scout_solver_def)
  show ?thesis by (simp add: se simulate_scout cost_cheap cost_example cheap_feasible)
qed

lemma random_population_greedy:
  "random_population scenario_settings 2 (list_rng [11, 11, 11, 11, 11, 11])
     = Some (Inr [example_solution, example_solution], (list_rng [11, 11, 11, 11, 11, 11])\<lparr>cursor := 6\<rparr>)"
  by (subst numeral_2_eq_2) (simp add: gen_scenario list_rng_def example_solution_def)

lemma gen_after_six:
  "generate_random_solution scenario_settings ((list_rng [11, 11, 11, 11, 11, 11])\<lparr>cursor := 6\<rparr>)
     = Some (Inr scout_solution, (list_rng [11, 11, 11, 11, 11, 11])\<lparr>cursor := 9\<rparr>)"
  by (simp add: gen_scenario list_rng_def scout_solution_def)

lemma simulate_greedy:
  "simulate_population (greedy_solver\<lparr>population := [example_solution, example_solution]\<rparr>)
       (start_world ((list_rng [11, 11, 11, 11, 11, 11])\<lparr>cursor := 6\<rparr>) (constant_rng 0))
     = Some (None, greedy_solver\<lparr>population := [example_solution, scout_solution]\<rparr>,
             start_world ((list_rng [11, 11, 11, 11, 11, 11])\<lparr>cursor := 9\<rparr>) (constant_rng 0))"
proof -
  have s: "sorted_by_cost scenario_settings [example_solution, example_solution]
             = Inr [example_solution, example_solution]"
    by (simp add: sorted_by_cost_def cost_example cost_key_def)
  have s1: "sorted_by_cost scenario_settings [example_solution] = Inr [example_solution]"
    by (simp add: sorted_by_cost_def cost_example)
  have se: "settings greedy_solver = scenario_settings" "elite_sites greedy_solver = 1"
    "normal_sites greedy_solver = 0" "elite_site_size greedy_solver = 0"
    by (simp_all add: greedy_solver_def)
  show ?thesis
    by (simp add: simulate_population_def se s s1 start_world_def gen_after_six upt_rec
        find_best_neighbour_def)
qed

text \<open>
  Claim C2. \<^verbatim>\<open>find_best_solution\<close> returns \<^verbatim>\<open>self.population[0]\<close> of a population
  that was sorted at the start of the last generation, not after it. With one iteration,
  a population of two, one elite site of no neighbour and the draws below, the final
  population is a Solution of cost 200 followed by a Solution of cost 2, and the run
  returns the first: it does not return the best solution found.
\<close>

theorem find_best_solution_returns_first_not_best:
  "find_best_solution greedy_solver 1
       (start_world (list_rng [11, 11, 11, 11, 11, 11]) (constant_rng 0))
     = Some (Inr example_solution,
             greedy_solver\<lparr>population := [example_solution, scout_solution]\<rparr>,
             start_world ((list_rng [11, 11, 11, 11, 11, 11])\<lparr>cursor := 9\<rparr>) (constant_rng 0))
   \<and> calculate_cost example_solution (settings greedy_solver) = Inr 200
   \<and> calculate_cost scout_solution (settings greedy_solver) = Inr 2"
proof -
  have se: "settings greedy_solver = scenario_settings" "population_size greedy_solver = 2"
    by (simp_all add: greedy_solver_def)
  have w: "(start_world (list_rng [11, 11, 11, 11, 11, 11]) (constant_rng 0))
             \<lparr>np_random := (list_rng [11, 11, 11, 11, 11, 11])\<lparr>cursor := 6\<rparr>\<rparr>
           = start_world ((list_rng [11, 11, 11, 11, 11, 11])\<lparr>cursor := 6\<rparr>) (constant_rng 0)"
    by (simp add: start_world_def)
  have np: "np_random (start_world (list_rng [11, 11, 11, 11, 11, 11]) (constant_rng 0))
              = list_rng [11, 11, 11, 11, 11, 11]"
    by (simp add: start_world_def)
  have "find_best_solution greedy_solver (Suc 0)
       (start_world (list_rng [11, 11, 11, 11, 11, 11]) (constant_rng 0))
     = Some (Inr example_solution,
             greedy_solver\<lparr>population := [example_solution, scout_solution]\<rparr>,
             start_world ((list_rng [11, 11, 11, 11, 11, 11])\<lparr>cursor := 9\<rparr>) (constant_rng 0))"
    unfolding find_best_solution_def se np random_population_greedy
    by (simp add: w simulate_greedy)
  then show ?thesis by (simp add: se cost_example cost_scout)
qed

end
